theory Spec2Isabelle
  imports Complex_Main "HOL-Library.Sublist" "HOL-Library.Multiset"
begin

text \<open>
  The repository holds two Streamlit applications that share one analysis: resolve a
  gene name to a row of the expression matrix, split the samples into groups by that
  row, run a two-sample t-test for every gene, correct the p-values and label the
  genes. The web app (\<open>prairie_genomics_web_app.py\<close>) does it in \<open>find_target_gene\<close>,
  \<open>group_samples\<close>, \<open>run_differential_expression\<close> and the button handler of
  \<open>analysis_section\<close>; the enhanced app (\<open>prairie_genomics_enhanced.py\<close>) in
  \<open>create_expression_groups\<close>, \<open>run_simple_differential_expression\<close> and
  \<open>differential_expression_section\<close>. Both variants are modelled here, function by
  function, with the session state passed explicitly and exceptions as values.
\<close>

section \<open>Strings\<close>

text \<open>
  Python strings are modelled as \<open>string\<close> (lists of 8-bit characters), so the
  development speaks about ASCII gene names and sample names. \<open>str.upper\<close> maps the
  letters a..z to A..Z and leaves every other ASCII character alone; \<open>a in b\<close> on two
  strings is the contiguous-substring test, which is \<open>sublist\<close>; \<open>s.split('.')[0]\<close>
  is the part of \<open>s\<close> before its first dot.
\<close>

definition upper_char :: "char \<Rightarrow> char" where
  "upper_char c =
     (let n = (of_char c :: nat) in if 97 \<le> n \<and> n \<le> 122 then char_of (n - 32) else c)"

definition upper :: "string \<Rightarrow> string" where
  "upper s = map upper_char s"

definition split_dot_0 :: "string \<Rightarrow> string" where
  "split_dot_0 s = takeWhile (\<lambda>c. c \<noteq> CHR ''.'') s"

section \<open>Session state\<close>

text \<open>
  A pandas Series is a list of labelled values, a DataFrame a list of labelled rows
  that share the column labels. The gene symbol dictionary is kept as the list of its
  items, in the order in which \<open>dict.items()\<close> yields them.
\<close>

type_synonym series = "(string \<times> real) list"

record dataframe =
  columns :: "string list"
  rows :: "(string \<times> real list) list"

definition index :: "dataframe \<Rightarrow> string list" where
  "index df = map fst (rows df)"

record session_state =
  expression_data :: dataframe
  gene_symbols :: "(string \<times> string) list"

section \<open>Gene resolution\<close>

subsection \<open>Web app: \<open>find_target_gene\<close>\<close>

text \<open>The inner loop: the first row key that contains \<open>gene_id\<close> as a substring.\<close>

fun first_key_containing :: "string \<Rightarrow> string list \<Rightarrow> string option" where
  "first_key_containing gene_id [] = None"
| "first_key_containing gene_id (expr_gene_id # ks) =
     (if sublist gene_id expr_gene_id then Some expr_gene_id
      else first_key_containing gene_id ks)"

text \<open>
  The outer loop over the items of the symbol dictionary. An entry whose symbol matches
  but whose identifier occurs in no row key does not end the search.
\<close>

fun find_by_symbol :: "(string \<times> string) list \<Rightarrow> string list \<Rightarrow> string \<Rightarrow> string option" where
  "find_by_symbol [] keys target_gene = None"
| "find_by_symbol ((gene_id, symbol) # items) keys target_gene =
     (if upper symbol = upper target_gene then
        (case first_key_containing gene_id keys of
           Some k \<Rightarrow> Some k
         | None \<Rightarrow> find_by_symbol items keys target_gene)
      else find_by_symbol items keys target_gene)"

text \<open>The second loop: the first row key that contains the target, ignoring case.\<close>

fun find_by_partial_match :: "string list \<Rightarrow> string \<Rightarrow> string option" where
  "find_by_partial_match [] target_gene = None"
| "find_by_partial_match (gene_id # ks) target_gene =
     (if sublist (upper target_gene) (upper gene_id) then Some gene_id
      else find_by_partial_match ks target_gene)"

text \<open>\<open>None\<close> is the function's own \<open>return None\<close>; the caller reports it and stops.\<close>

definition find_target_gene :: "session_state \<Rightarrow> string \<Rightarrow> string option" where
  "find_target_gene st target_gene =
     (case find_by_symbol (gene_symbols st) (index (expression_data st)) target_gene of
        Some k \<Rightarrow> Some k
      | None \<Rightarrow> find_by_partial_match (index (expression_data st)) target_gene)"

subsection \<open>Enhanced app: the resolver at the head of \<open>create_expression_groups\<close>\<close>

datatype error = ValueError | KeyError | NameError

text \<open>
  The enhanced variant keeps the result in a local \<open>gene_id\<close>, initially \<open>None\<close>,
  and leaves the outer loop with \<open>if gene_id: break\<close>, a truth test: the empty string
  counts as false there, while \<open>gene_id is None\<close> further down tests for \<open>None\<close> only.
\<close>

fun truthy :: "string option \<Rightarrow> bool" where
  "truthy None = False"
| "truthy (Some s) = (s \<noteq> [])"

fun symbol_loop ::
  "(string \<times> string) list \<Rightarrow> string list \<Rightarrow> string \<Rightarrow> string option \<Rightarrow> string option" where
  "symbol_loop [] keys target_gene gene_id = gene_id"
| "symbol_loop ((gid, symbol) # items) keys target_gene gene_id =
     (if upper symbol = upper target_gene then
        (let gene_id' = (case first_key_containing gid keys of
                           Some expr_id \<Rightarrow> Some expr_id
                         | None \<Rightarrow> gene_id)
         in if truthy gene_id' then gene_id' else symbol_loop items keys target_gene gene_id')
      else symbol_loop items keys target_gene gene_id)"

definition resolve_gene_id :: "session_state \<Rightarrow> dataframe \<Rightarrow> string \<Rightarrow> error + string" where
  "resolve_gene_id st expr target_gene =
     (let gene_id = symbol_loop (gene_symbols st) (index expr) target_gene None;
          gene_id = (case gene_id of
                       None \<Rightarrow> find_by_partial_match (index expr) target_gene
                     | Some k \<Rightarrow> Some k)
      in case gene_id of None \<Rightarrow> Inl ValueError | Some k \<Rightarrow> Inr k)"

subsection \<open>The resolution order in the words of the specification\<close>

text \<open>
  Step 1 lists, in iteration order, every row key that contains the identifier of a
  dictionary entry whose symbol equals the target up to case; step 2 lists every row
  key that contains the target up to case. The first element of the first non-empty
  list is the answer.
\<close>

definition symbol_matches :: "(string \<times> string) list \<Rightarrow> string list \<Rightarrow> string \<Rightarrow> string list" where
  "symbol_matches symbol_map matrix_keys target_name =
     concat (map (\<lambda>(gid, sym).
        if upper sym = upper target_name then filter (sublist gid) matrix_keys else [])
      symbol_map)"

definition partial_matches :: "string list \<Rightarrow> string \<Rightarrow> string list" where
  "partial_matches matrix_keys target_name =
     filter (\<lambda>k. sublist (upper target_name) (upper k)) matrix_keys"

definition first_of :: "'a list \<Rightarrow> 'a option" where
  "first_of xs = (case xs of [] \<Rightarrow> None | x # _ \<Rightarrow> Some x)"

definition resolve_spec :: "(string \<times> string) list \<Rightarrow> string list \<Rightarrow> string \<Rightarrow> string option" where
  "resolve_spec symbol_map matrix_keys target_name =
     (case first_of (symbol_matches symbol_map matrix_keys target_name) of
        Some k \<Rightarrow> Some k
      | None \<Rightarrow> first_of (partial_matches matrix_keys target_name))"

text \<open>The resolver example of the specification: one row, one dictionary entry.\<close>

definition tp53_state :: "string list \<Rightarrow> real list \<Rightarrow> session_state" where
  "tp53_state cs vs =
     \<lparr>expression_data = \<lparr>columns = cs, rows = [(''ENSG1.3'', vs)]\<rparr>,
      gene_symbols = [(''ENSG1'', ''TP53'')]\<rparr>"

section \<open>Numbers and library functions\<close>

text \<open>
  Expression values, thresholds and p-values are numpy floats in the source; they are
  modelled as real numbers, so rounding and the special values \<open>nan\<close> and \<open>inf\<close> are
  outside this development. The pandas reductions used by the source are written out:
  \<open>Series.mean\<close>, \<open>Series.std\<close> (sample standard deviation), \<open>Series.median\<close> and
  \<open>Series.quantile\<close> with its default linear interpolation between the two nearest
  order statistics. On an empty series pandas yields \<open>nan\<close>; the functions below yield
  \<open>0\<close> there, and no result proved here reads that value.
\<close>

definition mean :: "real list \<Rightarrow> real" where
  "mean xs = (if xs = [] then 0 else sum_list xs / real (length xs))"

definition std :: "real list \<Rightarrow> real" where
  "std xs = (if length xs < 2 then 0
             else sqrt (sum_list (map (\<lambda>x. (x - mean xs)\<^sup>2) xs) / real (length xs - 1)))"

definition quantile :: "real \<Rightarrow> real list \<Rightarrow> real" where
  "quantile q xs =
     (if xs = [] then 0
      else let s = sort xs;
               pos = q * real (length xs - 1);
               lo = nat \<lfloor>pos\<rfloor>;
               hi = min (lo + 1) (length xs - 1)
           in s ! lo + (pos - real lo) * (s ! hi - s ! lo))"

definition median :: "real list \<Rightarrow> real" where
  "median xs = quantile (1 / 2) xs"

definition log2p1 :: "real \<Rightarrow> real" where
  "log2p1 x = log 2 (x + 1)"

section \<open>Frames\<close>

text \<open>
  \<open>df.loc[key]\<close> is the row with that key as a series over the column labels, and
  raises \<open>KeyError\<close> when there is none. \<open>row[mask].index\<close> lists the labels whose value
  passes the mask, in column order. \<open>df.loc[key, labels]\<close> selects from a row the values
  under the given labels, in the order of \<open>labels\<close>; every label passed in this program
  was read off the same frame's columns.
\<close>

definition loc :: "dataframe \<Rightarrow> string \<Rightarrow> error + series" where
  "loc df key = (case map_of (rows df) key of
                   None \<Rightarrow> Inl KeyError
                 | Some vs \<Rightarrow> Inr (zip (columns df) vs))"

definition labels_where :: "(real \<Rightarrow> bool) \<Rightarrow> series \<Rightarrow> string list" where
  "labels_where keep row = map fst (filter (\<lambda>(s, v). keep v) row)"

definition select :: "series \<Rightarrow> string list \<Rightarrow> real list" where
  "select row labels = concat (map (\<lambda>l. map snd (filter (\<lambda>(s, v). s = l) row)) labels)"

section \<open>Stratification\<close>

subsection \<open>Web app: \<open>group_samples\<close>\<close>

text \<open>
  The function has the parameters \<open>self\<close>, \<open>target_gene_id\<close> and \<open>method\<close>. Its last
  branch, taken for every method other than the two named ones, compares the row with
  \<open>high_threshold\<close> and \<open>low_threshold\<close>; these names are locals of \<open>analysis_section\<close>
  and are bound neither in \<open>group_samples\<close> nor at module level, so evaluating the
  branch raises \<open>NameError\<close>.
\<close>

definition group_samples ::
  "session_state \<Rightarrow> string \<Rightarrow> string \<Rightarrow> error + (string list \<times> string list)" where
  "group_samples st target_gene_id method =
     (case loc (expression_data st) target_gene_id of
        Inl e \<Rightarrow> Inl e
      | Inr target_expression \<Rightarrow>
          if method = ''Median split'' then
            (let threshold = median (map snd target_expression)
             in Inr (labels_where (\<lambda>v. v \<ge> threshold) target_expression,
                     labels_where (\<lambda>v. v < threshold) target_expression))
          else if method = ''Quartile split (top 25% vs bottom 25%)'' then
            (let q75 = quantile (3 / 4) (map snd target_expression);
                 q25 = quantile (1 / 4) (map snd target_expression)
             in Inr (labels_where (\<lambda>v. v \<ge> q75) target_expression,
                     labels_where (\<lambda>v. v \<le> q25) target_expression))
          else Inl NameError)"

text \<open>
  The call site in \<open>analysis_section\<close>: the two threshold widgets are read when the
  method is \<open>Custom thresholds\<close>, and \<open>group_samples\<close> is called with the gene and the
  method only.
\<close>

definition analysis_group_samples ::
  "session_state \<Rightarrow> string \<Rightarrow> string \<Rightarrow> real \<Rightarrow> real \<Rightarrow> error + (string list \<times> string list)" where
  "analysis_group_samples st target_gene_id grouping_method high_threshold low_threshold =
     group_samples st target_gene_id grouping_method"

subsection \<open>Enhanced app: \<open>create_expression_groups\<close>\<close>

text \<open>
  The design matrix is the list of samples with their \<open>condition\<close> label. A method
  other than the three named ones leaves \<open>groups\<close> unbound, and building the frame
  raises \<open>UnboundLocalError\<close>, a \<open>NameError\<close>.
\<close>

type_synonym design_matrix = "(string \<times> string) list"

definition quantile_label :: "real \<Rightarrow> real \<Rightarrow> real \<Rightarrow> string" where
  "quantile_label hi lo val =
     (if val \<ge> hi then ''High'' else if val \<le> lo then ''Low'' else ''Medium'')"

definition create_expression_groups ::
  "session_state \<Rightarrow> dataframe \<Rightarrow> string \<Rightarrow> string \<Rightarrow> error + design_matrix" where
  "create_expression_groups st expr target_gene method =
     (case resolve_gene_id st expr target_gene of
        Inl e \<Rightarrow> Inl e
      | Inr gene_id \<Rightarrow>
         (case loc expr gene_id of
            Inl e \<Rightarrow> Inl e
          | Inr gene_expr \<Rightarrow>
              if method = ''Median split'' then
                (let threshold = median (map snd gene_expr)
                 in Inr (map (\<lambda>(s, v). (s, if v \<ge> threshold then ''High'' else ''Low''))
                           gene_expr))
              else if method = ''Quartile split'' then
                (let q75 = quantile (3 / 4) (map snd gene_expr);
                     q25 = quantile (1 / 4) (map snd gene_expr)
                 in Inr (map (\<lambda>(s, v). (s, quantile_label q75 q25 v)) gene_expr))
              else if method = ''Tertile split'' then
                (let q67 = quantile (67 / 100) (map snd gene_expr);
                     q33 = quantile (33 / 100) (map snd gene_expr)
                 in Inr (map (\<lambda>(s, v). (s, quantile_label q67 q33 v)) gene_expr))
              else Inl NameError))"

section \<open>Significance labels\<close>

text \<open>
  Both thresholds are read from \<open>st.number_input\<close> widgets. Such a widget hands back a
  number between its \<open>min_value\<close> and its \<open>max_value\<close>. The p-value threshold is
  bounded by 0.001 and 0.1 in both apps; the fold-change threshold by 0.5 and 5.0 in
  \<open>analysis_section\<close> and by 0.1 and 5.0 in \<open>differential_expression_section\<close>.
\<close>

definition number_input :: "real \<Rightarrow> real \<Rightarrow> real \<Rightarrow> bool" where
  "number_input min_value max_value v \<longleftrightarrow> min_value \<le> v \<and> v \<le> max_value"

definition analysis_section_thresholds :: "real \<Rightarrow> real \<Rightarrow> bool" where
  "analysis_section_thresholds p_threshold fc_threshold \<longleftrightarrow>
     number_input (1 / 1000) (1 / 10) p_threshold \<and> number_input (1 / 2) 5 fc_threshold"

definition differential_expression_section_thresholds :: "real \<Rightarrow> real \<Rightarrow> bool" where
  "differential_expression_section_thresholds p_threshold fc_threshold \<longleftrightarrow>
     number_input (1 / 1000) (1 / 10) p_threshold \<and> number_input (1 / 10) 5 fc_threshold"

text \<open>
  The web app labels each record with \<open>np.select\<close>: the first condition that holds
  picks the label, and the default is the string \<open>ns\<close>.
\<close>

definition up_condition :: "real \<Rightarrow> real \<Rightarrow> real \<Rightarrow> real \<Rightarrow> bool" where
  "up_condition adj_p log2fc p_threshold fc_threshold \<longleftrightarrow>
     adj_p < p_threshold \<and> log2fc > fc_threshold"

definition down_condition :: "real \<Rightarrow> real \<Rightarrow> real \<Rightarrow> real \<Rightarrow> bool" where
  "down_condition adj_p log2fc p_threshold fc_threshold \<longleftrightarrow>
     adj_p < p_threshold \<and> log2fc < - fc_threshold"

definition significance_label :: "real \<Rightarrow> real \<Rightarrow> real \<Rightarrow> real \<Rightarrow> string" where
  "significance_label adj_p log2fc p_threshold fc_threshold =
     (if up_condition adj_p log2fc p_threshold fc_threshold then ''up''
      else if down_condition adj_p log2fc p_threshold fc_threshold then ''down''
      else ''ns'')"

text \<open>
  The enhanced app has no label column; its summary counts the records with
  \<open>padj < p_threshold\<close> and \<open>|log2FoldChange| > fc_threshold\<close>, and among them those
  with positive and with negative fold change.
\<close>

definition significant :: "real \<Rightarrow> real \<Rightarrow> real \<Rightarrow> real \<Rightarrow> bool" where
  "significant padj log2fc p_threshold fc_threshold \<longleftrightarrow>
     padj < p_threshold \<and> \<bar>log2fc\<bar> > fc_threshold"

definition up_regulated :: "real \<Rightarrow> real \<Rightarrow> real \<Rightarrow> real \<Rightarrow> bool" where
  "up_regulated padj log2fc p_threshold fc_threshold \<longleftrightarrow>
     significant padj log2fc p_threshold fc_threshold \<and> log2fc > 0"

definition down_regulated :: "real \<Rightarrow> real \<Rightarrow> real \<Rightarrow> real \<Rightarrow> bool" where
  "down_regulated padj log2fc p_threshold fc_threshold \<longleftrightarrow>
     significant padj log2fc p_threshold fc_threshold \<and> log2fc < 0"

text \<open>Example frames: one gene over four and over five samples.\<close>

definition four_samples :: session_state where
  "four_samples =
     \<lparr>expression_data =
        \<lparr>columns = [''s1'', ''s2'', ''s3'', ''s4''], rows = [(''D'', [0, 1, 3, 7])]\<rparr>,
      gene_symbols = []\<rparr>"

definition sparse_gene :: session_state where
  "sparse_gene =
     \<lparr>expression_data =
        \<lparr>columns = [''s1'', ''s2'', ''s3'', ''s4'', ''s5''], rows = [(''Z'', [0, 0, 0, 0, 7])]\<rparr>,
      gene_symbols = []\<rparr>"

section \<open>Group slices\<close>

text \<open>\<open>Series.unique()\<close> yields the distinct values in order of first appearance.\<close>

definition unique :: "'a list \<Rightarrow> 'a list" where
  "unique xs = rev (remdups (rev xs))"

text \<open>
  \<open>design_matrix[design_matrix['condition'] == g].index\<close>: the samples whose condition
  is \<open>g\<close>, in the order of the design matrix.
\<close>

definition samples_with :: "(string \<times> string) list \<Rightarrow> string \<Rightarrow> string list" where
  "samples_with design_matrix g = map fst (filter (\<lambda>(s, c). c = g) design_matrix)"

text \<open>
  The slice of a row under the \<open>n\<close>-th distinct label of the design matrix (labels
  counted from 0 in order of first appearance): group A of the enhanced engine is
  slice 0 and group B is slice 1. For the web app, the slice of a row under a list of
  sample names.
\<close>

definition group_slice :: "dataframe \<Rightarrow> (string \<times> string) list \<Rightarrow> nat \<Rightarrow> real list \<Rightarrow> real list" where
  "group_slice expr design_matrix n vs =
     select (zip (columns expr) vs) (samples_with design_matrix (unique (map snd design_matrix) ! n))"

definition sample_slice :: "session_state \<Rightarrow> string list \<Rightarrow> real list \<Rightarrow> real list" where
  "sample_slice st samples vs = select (zip (columns (expression_data st)) vs) samples"

section \<open>The differential-expression engines\<close>

text \<open>
  Both engines call \<open>scipy.stats.ttest_ind\<close>, which is not part of the repository. It is
  a parameter of the model: a function from two samples to a statistic and a p-value,
  with \<open>None\<close> for a call that raises. The multiple-testing correction
  (\<open>false_discovery_control\<close> in the web app, \<open>multipletests\<close> with \<open>fdr_bh\<close> in the
  enhanced app) is a library call as well and is a parameter too; it returns one
  adjusted value per p-value, in the same order. Both engines visit the rows of the
  frame in index order; row keys are unique, so looking a row up by its key yields that
  row.
\<close>

type_synonym ttest = "real list \<Rightarrow> real list \<Rightarrow> (real \<times> real) option"

type_synonym correction = "real list \<Rightarrow> real list"

subsection \<open>Web app: \<open>run_differential_expression\<close> and the analysis pipeline\<close>

record de_row =
  gene_id :: string
  gene_symbol :: string
  log2_fold_change :: real
  p_value :: real
  high_mean :: real
  low_mean :: real
  high_std :: real
  low_std :: real

record de_result = de_row +
  adj_p_value :: real
  significance :: string

text \<open>
  The loop body. A gene is skipped (\<open>continue\<close>) when a slice has fewer than three
  values, and when anything inside the \<open>try\<close> block raises; the only call there that
  is not total is the t-test. The test is run on the raw slices.
\<close>

definition de_gene ::
  "ttest \<Rightarrow> session_state \<Rightarrow> string list \<Rightarrow> string list \<Rightarrow> string \<times> real list \<Rightarrow> de_row option" where
  "de_gene ttest_ind st high_samples low_samples r =
     (let row = zip (columns (expression_data st)) (snd r);
          high_expr = select row high_samples;
          low_expr = select row low_samples
      in if length high_expr < 3 \<or> length low_expr < 3 then None
         else (case ttest_ind high_expr low_expr of
                 None \<Rightarrow> None
               | Some (stat, pval) \<Rightarrow>
                   (let log2fc = log 2 ((mean high_expr + 1 / 10 ^ 6) / (mean low_expr + 1 / 10 ^ 6));
                        clean_id = split_dot_0 (fst r);
                        symbol = (case map_of (gene_symbols st) clean_id of
                                    None \<Rightarrow> clean_id | Some s \<Rightarrow> s)
                    in Some \<lparr>gene_id = fst r, gene_symbol = symbol,
                             log2_fold_change = log2fc, p_value = pval,
                             high_mean = mean high_expr, low_mean = mean low_expr,
                             high_std = std high_expr, low_std = std low_expr\<rparr>)))"

definition run_differential_expression ::
  "ttest \<Rightarrow> session_state \<Rightarrow> string list \<Rightarrow> string list \<Rightarrow> de_row list" where
  "run_differential_expression ttest_ind st high_samples low_samples =
     List.map_filter (de_gene ttest_ind st high_samples low_samples)
       (rows (expression_data st))"

text \<open>
  The body of the button handler in \<open>analysis_section\<close>. When the gene is not found
  the handler reports it and returns. A frame built from an empty list of records has
  no columns, so reading its \<open>p_value\<close> column raises \<open>KeyError\<close>. Every exception ends
  the handler in its \<open>except\<close> clause, before \<open>de_results\<close> is stored.
  \<open>sort_values\<close> orders the table by ascending \<open>adj_p_value\<close>.
\<close>

datatype failure = Could_not_find | Analysis_failed error

definition label_results :: "real \<Rightarrow> real \<Rightarrow> de_row list \<Rightarrow> real list \<Rightarrow> de_result list" where
  "label_results p_threshold fc_threshold de_results adj =
     map (\<lambda>(r, a). de_row.extend r
            \<lparr>adj_p_value = a,
             significance = significance_label a (log2_fold_change r) p_threshold fc_threshold\<rparr>)
       (zip de_results adj)"

definition analysis_section ::
  "ttest \<Rightarrow> correction \<Rightarrow> session_state \<Rightarrow> string \<Rightarrow> real \<Rightarrow> real \<Rightarrow> string
     \<Rightarrow> failure + de_result list" where
  "analysis_section ttest_ind false_discovery_control st target_gene p_threshold fc_threshold
       grouping_method =
     (case find_target_gene st target_gene of
        None \<Rightarrow> Inl Could_not_find
      | Some target_gene_id \<Rightarrow>
         (case group_samples st target_gene_id grouping_method of
            Inl e \<Rightarrow> Inl (Analysis_failed e)
          | Inr (high_samples, low_samples) \<Rightarrow>
             (let de_results = run_differential_expression ttest_ind st high_samples low_samples
              in if de_results = [] then Inl (Analysis_failed KeyError)
                 else Inr (sort_key adj_p_value
                        (label_results p_threshold fc_threshold de_results
                           (false_discovery_control (map p_value de_results)))))))"

subsection \<open>Enhanced app: \<open>run_simple_differential_expression\<close>\<close>

record result_row =
  gene :: string
  baseMean :: real
  log2FoldChange :: real
  stat :: real
  pvalue :: real

record result = result_row +
  padj :: real

text \<open>
  The loop body. There is no size check and no \<open>try\<close>: a t-test that raises ends the
  whole function. Both slices are transformed by \<open>log2(x + 1)\<close>; the test gets the
  second group first.
\<close>

definition test_gene ::
  "ttest \<Rightarrow> dataframe \<Rightarrow> string list \<Rightarrow> string list \<Rightarrow> string \<times> real list \<Rightarrow> result_row option" where
  "test_gene ttest_ind expr group1_samples group2_samples r =
     (let row = zip (columns expr) (snd r);
          expr1 = select row group1_samples;
          expr2 = select row group2_samples;
          log_expr1 = map log2p1 expr1;
          log_expr2 = map log2p1 expr2
      in case ttest_ind log_expr2 log_expr1 of
           None \<Rightarrow> None
         | Some (t, pval) \<Rightarrow>
             Some \<lparr>gene = fst r, baseMean = mean (snd r),
                   log2FoldChange = mean log_expr2 - mean log_expr1,
                   stat = t, pvalue = pval\<rparr>)"

datatype engine_error = Raised error | Raised_by_ttest_ind

definition run_simple_differential_expression ::
  "ttest \<Rightarrow> correction \<Rightarrow> dataframe \<Rightarrow> design_matrix \<Rightarrow> engine_error + result list" where
  "run_simple_differential_expression ttest_ind fdr_bh expr design_matrix =
     (let groups = unique (map snd design_matrix)
      in if length groups \<noteq> 2 then Inl (Raised ValueError)
         else
           (let group1_samples = samples_with design_matrix (groups ! 0);
                group2_samples = samples_with design_matrix (groups ! 1)
            in case those (map (test_gene ttest_ind expr group1_samples group2_samples)
                             (rows expr)) of
                 None \<Rightarrow> Inl Raised_by_ttest_ind
               | Some results \<Rightarrow>
                   if results = [] then Inl (Raised KeyError)
                   else Inr (map (\<lambda>(r, p). result_row.extend r \<lparr>padj = p\<rparr>)
                               (zip results (fdr_bh (map pvalue results))))))"

text \<open>
  The t-test path of \<open>differential_expression_section\<close> with expression-based grouping:
  the design comes from \<open>create_expression_groups\<close>, the table from the engine, and the
  table is stored as it is returned.
\<close>

definition differential_expression_section ::
  "ttest \<Rightarrow> correction \<Rightarrow> session_state \<Rightarrow> string \<Rightarrow> string \<Rightarrow> engine_error + result list" where
  "differential_expression_section ttest_ind fdr_bh st target_gene grouping_method =
     (case create_expression_groups st (expression_data st) target_gene grouping_method of
        Inl e \<Rightarrow> Inl (Raised e)
      | Inr design_subset \<Rightarrow>
          run_simple_differential_expression ttest_ind fdr_bh (expression_data st) design_subset)"

section \<open>Multiple-testing correction\<close>

text \<open>
  Modelled from the spec: the Benjamini-Hochberg correction. The repository only calls
  the correction (\<open>scipy.stats.false_discovery_control\<close> in the web app,
  \<open>statsmodels.stats.multitest.multipletests\<close> with \<open>method='fdr_bh'\<close> in the enhanced
  app); its code is not among the sources. Section 4.4 of the specification gives the
  algorithm: sort the p-values ascending, set the value at rank \<open>i\<close> (counted from 1,
  with \<open>m\<close> tests) to \<open>p_i * m / i\<close>, take the running minimum from the largest rank
  down to the smallest, clip to \<open>[0, 1]\<close>, and return the values in the order of the
  input.
\<close>

text \<open>
  Modelled from the spec: the permutation that sorts the p-values ascending (the sort of
  section 4.4, kept as positions so that the result can be returned in input order).
\<close>

definition argsort :: "real list \<Rightarrow> nat list" where
  "argsort ps = sort_key (\<lambda>i. ps ! i) [0..<length ps]"

text \<open>
  Modelled from the spec: the value \<open>p_i * m / i\<close> for the p-value at rank \<open>i\<close> of the
  sorted list, ranks counted from 1.
\<close>

definition rank_scaled :: "real list \<Rightarrow> real list" where
  "rank_scaled s =
     map (\<lambda>(p, i). p * real (length s) / real i) (zip s [1..<length s + 1])"

text \<open>
  Modelled from the spec: the running minimum taken from the largest rank down to the
  smallest, so that every position holds the minimum of the values from it onwards.
\<close>

fun running_min :: "real list \<Rightarrow> real list" where
  "running_min [] = []"
| "running_min (x # xs) =
     (case running_min xs of [] \<Rightarrow> [x] | r # rs \<Rightarrow> min x r # r # rs)"

text \<open>Modelled from the spec: clipping to \<open>[0, 1]\<close>.\<close>

definition clip01 :: "real \<Rightarrow> real" where
  "clip01 x = min 1 (max 0 x)"

text \<open>
  Modelled from the spec: \<open>correct(raw_p_values)\<close>, the four steps in order, with the
  adjusted values put back at the positions of their p-values in the input.
\<close>

definition benjamini_hochberg :: "real list \<Rightarrow> real list" where
  "benjamini_hochberg ps =
     (let order = argsort ps;
          adjusted = map clip01 (running_min (rank_scaled (map (\<lambda>i. ps ! i) order)))
      in map (\<lambda>i. case map_of (zip order adjusted) i of Some a \<Rightarrow> a | None \<Rightarrow> 0)
           [0..<length ps])"

section \<open>Example data\<close>

text \<open>
  A frame of three genes over six samples. The median of row \<open>D\<close> is 5, so its median
  split puts \<open>s4, s5, s6\<close> in the high group and \<open>s1, s2, s3\<close> in the low group.
\<close>

definition six_samples :: session_state where
  "six_samples =
     \<lparr>expression_data =
        \<lparr>columns = [''s1'', ''s2'', ''s3'', ''s4'', ''s5'', ''s6''],
         rows = [(''G1'', [1, 3, 7, 1, 3, 7]),
                 (''G2'', [0, 0, 1, 7, 7, 15]),
                 (''D'', [0, 1, 3, 7, 15, 31])]\<rparr>,
      gene_symbols = []\<rparr>"

definition median_design :: design_matrix where
  "median_design =
     [(''s1'', ''Low''), (''s2'', ''Low''), (''s3'', ''Low''),
      (''s4'', ''High''), (''s5'', ''High''), (''s6'', ''High'')]"

text \<open>
  A frame with one gene whose raw slices are \<open>[1, 3, 7]\<close> (high) and \<open>[0, 1, 3]\<close> (low),
  and a frame with a gene \<open>C\<close> that is constant over all samples.
\<close>

definition one_gene :: session_state where
  "one_gene =
     \<lparr>expression_data =
        \<lparr>columns = [''s1'', ''s2'', ''s3'', ''s4'', ''s5'', ''s6''],
         rows = [(''G3'', [0, 1, 3, 1, 3, 7])]\<rparr>,
      gene_symbols = []\<rparr>"

definition constant_gene :: dataframe where
  "constant_gene =
     \<lparr>columns = [''s1'', ''s2'', ''s3'', ''s4'', ''s5'', ''s6''],
      rows = [(''C'', [5, 5, 5, 5, 5, 5]), (''D'', [0, 1, 3, 7, 15, 31])]\<rparr>"

text \<open>
  A stand-in for the library t-test on the slices of these examples. Two equal samples
  give the statistic 0 and the p-value 1. For the log-transformed slices of \<open>G2\<close> and
  of \<open>D\<close> under the median split the entries are the rounded values of Student's
  test with four degrees of freedom. Every other call returns a fixed pair; the results
  that use it do not depend on the numbers.
\<close>

definition ttest_ind_example :: ttest where
  "ttest_ind_example a b =
     (if a = b then Some (0, 1)
      else if a = [3, 3, 4] \<and> b = [0, 0, 1] then Some (6364 / 1000, 31 / 10000)
      else if a = [3, 4, 5] \<and> b = [0, 1, 2] then Some (3674 / 1000, 213 / 10000)
      else Some (11832 / 10000, 3023 / 10000))"

text \<open>A stand-in for a t-test that raises when its two samples are equal.\<close>

definition ttest_ind_raising :: ttest where
  "ttest_ind_raising a b = (if a = b then None else Some (1, 1 / 2))"

text \<open>
  The table of the enhanced engine on \<open>six_samples\<close> under the median design, with
  the stand-in t-test and the Benjamini-Hochberg correction.
\<close>

definition six_samples_table :: "result list" where
  "six_samples_table =
     [\<lparr>gene = ''G1'', baseMean = 11 / 3, log2FoldChange = 0, stat = 0, pvalue = 1, padj = 1\<rparr>,
      \<lparr>gene = ''G2'', baseMean = 5, log2FoldChange = 3, stat = 6364 / 1000,
        pvalue = 31 / 10000, padj = 93 / 10000\<rparr>,
      \<lparr>gene = ''D'', baseMean = 19 / 2, log2FoldChange = 3, stat = 3674 / 1000,
        pvalue = 213 / 10000, padj = 639 / 20000\<rparr>]"

section \<open>Properties of gene resolution\<close>

lemma first_key_containing_filter:
  "first_key_containing gid keys = first_of (filter (sublist gid) keys)"
  by (induction keys) (simp_all add: first_of_def)

lemma find_by_partial_match_filter:
  "find_by_partial_match keys t = first_of (partial_matches keys t)"
  by (induction keys) (simp_all add: first_of_def partial_matches_def)

lemma first_of_append:
  "first_of (xs @ ys) = (case first_of xs of Some x \<Rightarrow> Some x | None \<Rightarrow> first_of ys)"
  by (cases xs) (simp_all add: first_of_def)

lemma find_by_symbol_matches:
  "find_by_symbol items keys t = first_of (symbol_matches items keys t)"
proof (induction items)
  case Nil
  show ?case by (simp add: symbol_matches_def first_of_def)
next
  case (Cons e items)
  obtain gid sym where e: "e = (gid, sym)" by (cases e)
  have tl: "symbol_matches ((gid, sym) # items) keys t =
      (if upper sym = upper t then filter (sublist gid) keys else []) @ symbol_matches items keys t"
    by (simp add: symbol_matches_def)
  show ?case
  proof (cases "upper sym = upper t")
    case True
    then show ?thesis
      using Cons.IH
      by (simp add: e tl first_of_append first_key_containing_filter split: option.splits)
  next
    case False
    then show ?thesis
      using Cons.IH by (simp add: e tl)
  qed
qed

lemma find_target_gene_spec:
  "find_target_gene st t = resolve_spec (gene_symbols st) (index (expression_data st)) t"
  by (simp add: find_target_gene_def resolve_spec_def find_by_symbol_matches
      find_by_partial_match_filter split: option.splits)

lemma first_of_None: "first_of xs = None \<longleftrightarrow> xs = []"
  by (cases xs) (simp_all add: first_of_def)

lemma first_key_containing_mem:
  "first_key_containing gid keys = Some k \<Longrightarrow> k \<in> set keys"
  by (induction keys) (auto split: if_splits)

text \<open>
  The enhanced loop returns \<open>None\<close> exactly when the web app's loop does, and the two
  loops agree on every frame whose row keys are non-empty strings: a key that is found
  then passes the truth test and ends the loop. (On a frame that has the empty string
  as a row key the truth test fails for that key and the loop goes on to later
  dictionary entries.)
\<close>

lemma symbol_loop_None:
  "symbol_loop items keys t acc = None \<longleftrightarrow> acc = None \<and> find_by_symbol items keys t = None"
  by (induction items keys t acc rule: symbol_loop.induct)
     (auto simp: Let_def split: option.splits)

lemma symbol_loop_find_by_symbol:
  "[] \<notin> set keys \<Longrightarrow> symbol_loop items keys t None = find_by_symbol items keys t"
proof (induction items)
  case Nil
  show ?case by simp
next
  case (Cons e items)
  obtain gid sym where e: "e = (gid, sym)" by (cases e)
  show ?case
  proof (cases "first_key_containing gid keys")
    case None
    then show ?thesis using Cons by (simp add: e)
  next
    case (Some k)
    then have "k \<noteq> []" using Cons.prems first_key_containing_mem by metis
    then show ?thesis using Some Cons by (simp add: e)
  qed
qed

lemma resolve_gene_id_fails:
  "resolve_gene_id st expr t = Inl ValueError \<longleftrightarrow>
     find_target_gene (st\<lparr>expression_data := expr\<rparr>) t = None"
proof (cases "symbol_loop (gene_symbols st) (index expr) t None")
  case None
  then have "find_by_symbol (gene_symbols st) (index expr) t = None"
    by (simp add: symbol_loop_None)
  then show ?thesis
    using None by (simp add: resolve_gene_id_def find_target_gene_def split: option.splits)
next
  case (Some k)
  then have "find_by_symbol (gene_symbols st) (index expr) t \<noteq> None"
    using symbol_loop_None [of "gene_symbols st" "index expr" t None] by simp
  then show ?thesis
    using Some by (auto simp: resolve_gene_id_def find_target_gene_def)
qed

lemma resolve_gene_id_spec:
  assumes "[] \<notin> set (index expr)"
  shows "resolve_gene_id st expr t =
     (case resolve_spec (gene_symbols st) (index expr) t of
        None \<Rightarrow> Inl ValueError | Some k \<Rightarrow> Inr k)"
proof -
  have "symbol_loop (gene_symbols st) (index expr) t None =
      first_of (symbol_matches (gene_symbols st) (index expr) t)"
    using assms by (simp add: symbol_loop_find_by_symbol find_by_symbol_matches)
  then show ?thesis
    by (simp add: resolve_gene_id_def resolve_spec_def find_by_partial_match_filter
        split: option.splits)
qed

lemma upper_TP53: "upper ''TP53'' = ''TP53''"
  by code_simp

lemma tp53_web:
  "upper t = ''TP53'' \<Longrightarrow> find_target_gene (tp53_state cs vs) t = Some ''ENSG1.3''"
  by (simp add: find_target_gene_def tp53_state_def index_def upper_TP53)

lemma tp53_enhanced:
  "upper t = ''TP53'' \<Longrightarrow>
     resolve_gene_id (tp53_state cs vs) (expression_data (tp53_state cs vs)) t = Inr ''ENSG1.3''"
  by (simp add: resolve_gene_id_def tp53_state_def index_def upper_TP53)

text \<open>
  Claim C3. Gene resolution first looks for a dictionary entry whose symbol equals the
  target up to case and returns the first row key containing that entry's identifier,
  then falls back to the first row key containing the target up to case, and fails
  when both lists of candidates are empty; the first candidate in iteration order is
  the answer. The web app's \<open>find_target_gene\<close> does so on every input and fails by
  returning \<open>None\<close>; the resolver of the enhanced app fails (with \<open>ValueError\<close>) on
  exactly the same inputs and returns the same key on every frame whose row keys are
  non-empty. With the dictionary \<open>{ENSG1: TP53}\<close> and the row key \<open>ENSG1.3\<close>, every
  spelling of \<open>tp53\<close> resolves to \<open>ENSG1.3\<close> in both variants.
\<close>

theorem gene_resolution_order:
  "find_target_gene st t = resolve_spec (gene_symbols st) (index (expression_data st)) t
   \<and> (find_target_gene st t = None \<longleftrightarrow>
        symbol_matches (gene_symbols st) (index (expression_data st)) t = []
        \<and> partial_matches (index (expression_data st)) t = [])
   \<and> (resolve_gene_id st (expression_data st) t = Inl ValueError \<longleftrightarrow>
        find_target_gene st t = None)
   \<and> ([] \<notin> set (index (expression_data st)) \<longrightarrow>
        resolve_gene_id st (expression_data st) t =
          (case find_target_gene st t of None \<Rightarrow> Inl ValueError | Some k \<Rightarrow> Inr k))
   \<and> (upper t = ''TP53'' \<longrightarrow>
        find_target_gene (tp53_state cs vs) t = Some ''ENSG1.3''
        \<and> resolve_gene_id (tp53_state cs vs) (expression_data (tp53_state cs vs)) t
            = Inr ''ENSG1.3'')"
proof -
  have a: "find_target_gene st t =
      resolve_spec (gene_symbols st) (index (expression_data st)) t"
    by (rule find_target_gene_spec)
  have b: "find_target_gene st t = None \<longleftrightarrow>
      symbol_matches (gene_symbols st) (index (expression_data st)) t = []
      \<and> partial_matches (index (expression_data st)) t = []"
    by (auto simp: a resolve_spec_def first_of_None first_of_def split: option.splits list.splits)
  have c: "resolve_gene_id st (expression_data st) t = Inl ValueError \<longleftrightarrow>
      find_target_gene st t = None"
    using resolve_gene_id_fails [of st "expression_data st" t] by simp
  have d: "[] \<notin> set (index (expression_data st)) \<longrightarrow>
      resolve_gene_id st (expression_data st) t =
        (case find_target_gene st t of None \<Rightarrow> Inl ValueError | Some k \<Rightarrow> Inr k)"
    by (simp add: resolve_gene_id_spec a)
  show ?thesis
    using a b c d tp53_web tp53_enhanced by blast
qed

theorem gene_resolution_order_witness:
  "[] \<notin> set (index (expression_data (tp53_state [''s1''] [5])))
   \<and> upper ''tp53'' = ''TP53''
   \<and> find_target_gene (tp53_state [''s1''] [5]) ''tp53'' = Some ''ENSG1.3''
   \<and> resolve_gene_id (tp53_state [''s1''] [5]) (expression_data (tp53_state [''s1''] [5])) ''tp53''
        = Inr ''ENSG1.3''"
proof -
  have u: "upper ''tp53'' = ''TP53''" by code_simp
  have k: "[] \<notin> set (index (expression_data (tp53_state [''s1''] [5])))"
    by (simp add: tp53_state_def index_def)
  note g = gene_resolution_order [of "tp53_state [''s1''] [5]" "''tp53''" "[''s1'']" "[5]"]
  from g u have "find_target_gene (tp53_state [''s1''] [5]) ''tp53'' = Some ''ENSG1.3''
      \<and> resolve_gene_id (tp53_state [''s1''] [5])
           (expression_data (tp53_state [''s1''] [5])) ''tp53'' = Inr ''ENSG1.3''"
    by blast
  with u k show ?thesis by blast
qed

section \<open>Properties of stratification\<close>

lemma quartiles_sparse:
  "quantile (3 / 4) [0, 0, 0, 0, 7] = 0" "quantile (1 / 4) [0, 0, 0, 0, 7] = 0"
  by (simp_all add: quantile_def Let_def)

text \<open>
  Claim C7. With the method \<open>Custom thresholds\<close> the cut values typed into the two
  widgets never reach \<open>group_samples\<close>: for the row \<open>D = [0, 1, 3, 7]\<close> with a high cut
  of 3 and a low cut of 1 the call raises \<open>NameError\<close> instead of returning the groups
  \<open>[s3, s4]\<close> and \<open>[s1, s2]\<close>.
\<close>

theorem custom_thresholds_name_error:
  "analysis_group_samples four_samples ''D'' ''Custom thresholds'' 3 1 = Inl NameError"
  by (simp add: analysis_group_samples_def group_samples_def four_samples_def loc_def)

text \<open>
  Claim C6. The quartile split of the web app on a row whose quartiles coincide: for
  \<open>Z = [0, 0, 0, 0, 7]\<close> both quartiles are \<open>0\<close>, the high group is every sample and the
  low group is the four samples with value \<open>0\<close>, so four samples are in both groups and
  the group sizes add up to nine for five samples.
\<close>

theorem quartile_split_overlap:
  "group_samples sparse_gene ''Z'' ''Quartile split (top 25% vs bottom 25%)''
     = Inr ([''s1'', ''s2'', ''s3'', ''s4'', ''s5''], [''s1'', ''s2'', ''s3'', ''s4''])"
  by (simp add: group_samples_def sparse_gene_def loc_def labels_where_def quartiles_sparse)

text \<open>
  The other paths keep the groups apart. The median split of the web app divides the
  samples into two disjoint groups that cover the row; its quartile split does so
  whenever the lower quartile is below the upper one; and the enhanced app gives every
  sample exactly one label.
\<close>

lemma labels_where_disjoint:
  assumes "distinct (map fst row)" and "\<And>v. \<not> (P v \<and> Q v)"
  shows "set (labels_where P row) \<inter> set (labels_where Q row) = {}"
proof -
  have "\<And>s v w. (s, v) \<in> set row \<Longrightarrow> (s, w) \<in> set row \<Longrightarrow> v = w"
    using assms(1) by (meson eq_key_imp_eq_value)
  then show ?thesis
    using assms(2) by (fastforce simp: labels_where_def)
qed

lemma labels_where_length:
  assumes "\<And>v. \<not> (P v \<and> Q v)"
  shows "length (labels_where P row) + length (labels_where Q row) \<le> length row"
proof -
  have "length (filter (\<lambda>(s, v). P v) row) + length (filter (\<lambda>(s, v). Q v) row)
      \<le> length row"
    using assms by (induction row) auto
  then show ?thesis by (simp add: labels_where_def)
qed

lemma labels_where_partition:
  "length (labels_where (\<lambda>v. v \<ge> t) row) + length (labels_where (\<lambda>v. v < t) row)
     = length row"
proof -
  have "length (filter (\<lambda>(s, v). v \<ge> t) row) + length (filter (\<lambda>(s, v). v < t) row)
      = length row"
    by (induction row) auto
  then show ?thesis by (simp add: labels_where_def)
qed

lemma loc_distinct:
  "distinct (columns df) \<Longrightarrow> loc df k = Inr row \<Longrightarrow> distinct (map fst row)"
  by (auto simp: loc_def map_fst_zip_take split: option.splits)

lemma median_split_partition:
  assumes "distinct (columns (expression_data st))"
    and "group_samples st k ''Median split'' = Inr (h, l)"
  shows "set h \<inter> set l = {}"
    and "\<exists>row. loc (expression_data st) k = Inr row \<and> length h + length l = length row"
proof -
  obtain row where row: "loc (expression_data st) k = Inr row"
    using assms(2) by (cases "loc (expression_data st) k") (auto simp: group_samples_def)
  have h: "h = labels_where (\<lambda>v. v \<ge> median (map snd row)) row"
    and l: "l = labels_where (\<lambda>v. v < median (map snd row)) row"
    using assms(2) row by (simp_all add: group_samples_def Let_def)
  have d: "distinct (map fst row)"
    using assms(1) row by (rule loc_distinct)
  show "set h \<inter> set l = {}"
    unfolding h l by (rule labels_where_disjoint [OF d]) auto
  show "\<exists>row. loc (expression_data st) k = Inr row \<and> length h + length l = length row"
    using row labels_where_partition unfolding h l by blast
qed

lemma quartile_split_disjoint:
  assumes "distinct (columns (expression_data st))"
    and "loc (expression_data st) k = Inr row"
    and "quantile (1 / 4) (map snd row) < quantile (3 / 4) (map snd row)"
    and "group_samples st k ''Quartile split (top 25% vs bottom 25%)'' = Inr (h, l)"
  shows "set h \<inter> set l = {} \<and> length h + length l \<le> length row"
proof -
  have h: "h = labels_where (\<lambda>v. v \<ge> quantile (3 / 4) (map snd row)) row"
    and l: "l = labels_where (\<lambda>v. v \<le> quantile (1 / 4) (map snd row)) row"
    using assms(2,4) by (simp_all add: group_samples_def Let_def)
  have d: "distinct (map fst row)"
    using assms(1,2) by (rule loc_distinct)
  have "set (labels_where (\<lambda>v. v \<ge> quantile (3 / 4) (map snd row)) row)
      \<inter> set (labels_where (\<lambda>v. v \<le> quantile (1 / 4) (map snd row)) row) = {}"
    by (rule labels_where_disjoint [OF d]) (use assms(3) in auto)
  moreover have "length (labels_where (\<lambda>v. v \<ge> quantile (3 / 4) (map snd row)) row)
      + length (labels_where (\<lambda>v. v \<le> quantile (1 / 4) (map snd row)) row) \<le> length row"
    by (rule labels_where_length) (use assms(3) in auto)
  ultimately show ?thesis
    unfolding h l by blast
qed

lemma create_expression_groups_one_label:
  assumes "create_expression_groups st expr t m = Inr design"
  shows "\<exists>k row. resolve_gene_id st expr t = Inr k \<and> loc expr k = Inr row
           \<and> map fst design = map fst row"
proof -
  obtain k where k: "resolve_gene_id st expr t = Inr k"
    using assms by (cases "resolve_gene_id st expr t") (auto simp: create_expression_groups_def)
  obtain row where row: "loc expr k = Inr row"
    using assms k by (cases "loc expr k") (auto simp: create_expression_groups_def)
  have "map fst design = map fst row"
    using assms k row
    by (auto simp: create_expression_groups_def Let_def split: if_splits)
  then show ?thesis using k row by blast
qed

section \<open>Properties of the engines\<close>

subsection \<open>Auxiliary facts\<close>

lemma those_Some_map: "those xs = Some ys \<Longrightarrow> xs = map Some ys"
  by (induction xs arbitrary: ys) (auto split: option.splits)

lemma those_None_iff: "those xs = None \<longleftrightarrow> None \<in> set xs"
  by (induction xs) (auto split: option.splits)

lemma filter_key_length:
  "distinct (map fst row) \<Longrightarrow> length (filter (\<lambda>(s, v). s = l) row) \<le> 1"
proof (induction row)
  case Nil
  show ?case by simp
next
  case (Cons a row)
  obtain s v where a: "a = (s, v)" by (cases a)
  show ?case
  proof (cases "s = l")
    case True
    then have "filter (\<lambda>(s, v). s = l) row = []"
      using Cons.prems by (force simp: a filter_empty_conv image_iff)
    then show ?thesis by (simp add: a True)
  next
    case False
    then show ?thesis using Cons by (simp add: a)
  qed
qed

lemma filter_key_length_1:
  "distinct (map fst row) \<Longrightarrow> l \<in> fst ` set row \<Longrightarrow>
     length (filter (\<lambda>(s, v). s = l) row) = 1"
proof -
  assume d: "distinct (map fst row)" and m: "l \<in> fst ` set row"
  from m have "filter (\<lambda>(s, v). s = l) row \<noteq> []"
    by (auto simp: filter_empty_conv)
  then have "0 < length (filter (\<lambda>(s, v). s = l) row)" by simp
  with filter_key_length [OF d, of l] show ?thesis by linarith
qed

lemma select_Cons:
  "select row (l # ls) = map snd (filter (\<lambda>(s, v). s = l) row) @ select row ls"
  by (simp add: select_def)

lemma select_length_le:
  "distinct (map fst row) \<Longrightarrow> length (select row labels) \<le> length labels"
proof (induction labels)
  case Nil
  show ?case by (simp add: select_def)
next
  case (Cons l ls)
  then show ?case
    using filter_key_length [of row l] by (simp add: select_Cons)
qed

lemma select_length:
  "distinct (map fst row) \<Longrightarrow> set labels \<subseteq> fst ` set row \<Longrightarrow>
     length (select row labels) = length labels"
proof (induction labels)
  case Nil
  show ?case by (simp add: select_def)
next
  case (Cons l ls)
  then show ?case
    using filter_key_length_1 [of row l] by (simp add: select_Cons)
qed

lemma zip_columns_distinct: "distinct cs \<Longrightarrow> distinct (map fst (zip cs vs))"
  by (simp add: map_fst_zip_take)

lemma zip_columns_keys: "length vs = length cs \<Longrightarrow> fst ` set (zip cs vs) = set cs"
  by (metis list.set_map map_fst_zip)

lemma map_filter_all_None: "(\<And>x. x \<in> set xs \<Longrightarrow> f x = None) \<Longrightarrow> List.map_filter f xs = []"
  by (induction xs) (simp_all add: List.map_filter_simps)

lemma map_filter_all_Some:
  "(\<And>x. x \<in> set xs \<Longrightarrow> \<exists>y. f x = Some y \<and> g y = h x) \<Longrightarrow>
     map g (List.map_filter f xs) = map h xs"
proof (induction xs)
  case Nil
  show ?case by (simp add: List.map_filter_simps)
next
  case (Cons a xs)
  obtain y where y: "f a = Some y" "g y = h a"
    using Cons.prems [of a] by auto
  have "map g (List.map_filter f xs) = map h xs"
    using Cons by simp
  then show ?case by (simp add: List.map_filter_simps y)
qed

lemma map_filter_append:
  "List.map_filter f (xs @ ys) = List.map_filter f xs @ List.map_filter f ys"
  by (simp add: List.map_filter_def)

lemma map_filter_mem:
  "y \<in> set (List.map_filter f xs) \<Longrightarrow> \<exists>x \<in> set xs. f x = Some y"
  by (auto simp: List.map_filter_def)

lemma length_unique: "length (unique xs) = card (set xs)"
  by (simp add: unique_def length_remdups_card_conv)

subsection \<open>The web app engine\<close>

lemma de_gene_small:
  assumes "distinct (columns (expression_data st))"
    and "length h < 3 \<or> length l < 3"
  shows "de_gene tt st h l r = None"
proof -
  have d: "distinct (map fst (zip (columns (expression_data st)) (snd r)))"
    using assms(1) by (rule zip_columns_distinct)
  have "length (select (zip (columns (expression_data st)) (snd r)) h) \<le> length h"
    and "length (select (zip (columns (expression_data st)) (snd r)) l) \<le> length l"
    using d by (rule select_length_le)+
  then show ?thesis
    using assms(2) by (auto simp: de_gene_def Let_def)
qed

lemma run_differential_expression_small:
  assumes "distinct (columns (expression_data st))"
    and "length h < 3 \<or> length l < 3"
  shows "run_differential_expression tt st h l = []"
  unfolding run_differential_expression_def
  by (rule map_filter_all_None) (rule de_gene_small [OF assms])

lemma de_gene_Some:
  assumes "de_gene tt st h l r = Some y"
  shows "gene_id y = fst r
    \<and> 3 \<le> length (sample_slice st h (snd r)) \<and> 3 \<le> length (sample_slice st l (snd r))
    \<and> (\<exists>t. tt (sample_slice st h (snd r)) (sample_slice st l (snd r)) = Some (t, p_value y))
    \<and> log2_fold_change y =
        log 2 ((mean (sample_slice st h (snd r)) + 1 / 10 ^ 6)
               / (mean (sample_slice st l (snd r)) + 1 / 10 ^ 6))"
  using assms
  by (auto simp: de_gene_def sample_slice_def Let_def split: if_splits option.splits)

lemma de_gene_tested:
  assumes "distinct (columns (expression_data st))"
    and "length (snd r) = length (columns (expression_data st))"
    and "set h \<subseteq> set (columns (expression_data st))"
    and "set l \<subseteq> set (columns (expression_data st))"
    and "3 \<le> length h" and "3 \<le> length l"
    and "tt (sample_slice st h (snd r)) (sample_slice st l (snd r)) \<noteq> None"
  shows "\<exists>y. de_gene tt st h l r = Some y \<and> gene_id y = fst r"
proof -
  let ?row = "zip (columns (expression_data st)) (snd r)"
  have d: "distinct (map fst ?row)"
    using assms(1) by (rule zip_columns_distinct)
  have k: "fst ` set ?row = set (columns (expression_data st))"
    using assms(2) by (rule zip_columns_keys)
  have "length (select ?row h) = length h" and "length (select ?row l) = length l"
    using d k assms(3,4) by (simp_all add: select_length)
  then show ?thesis
    using assms(5,6,7)
    by (auto simp: de_gene_def sample_slice_def Let_def split: option.splits)
qed

lemma de_gene_frame:
  "columns (expression_data st') = columns (expression_data st) \<Longrightarrow>
   gene_symbols st' = gene_symbols st \<Longrightarrow> de_gene tt st' h l = de_gene tt st h l"
  by (rule ext) (simp add: de_gene_def Let_def cong: if_cong option.case_cong)

lemma de_gene_raises:
  "tt (sample_slice st h (snd r)) (sample_slice st l (snd r)) = None \<Longrightarrow>
     de_gene tt st h l r = None"
  by (simp add: de_gene_def sample_slice_def Let_def)

subsection \<open>The enhanced engine\<close>

lemma test_gene_Some:
  assumes "test_gene tt expr (samples_with design (unique (map snd design) ! 0))
             (samples_with design (unique (map snd design) ! 1)) r = Some y"
  shows "gene y = fst r
    \<and> log2FoldChange y = mean (map log2p1 (group_slice expr design 1 (snd r)))
                          - mean (map log2p1 (group_slice expr design 0 (snd r)))
    \<and> tt (map log2p1 (group_slice expr design 1 (snd r)))
          (map log2p1 (group_slice expr design 0 (snd r))) = Some (stat y, pvalue y)"
  using assms
  by (auto simp: test_gene_def group_slice_def Let_def split: option.splits)

lemma test_gene_None:
  "test_gene tt expr (samples_with design (unique (map snd design) ! 0))
      (samples_with design (unique (map snd design) ! 1)) r = None \<longleftrightarrow>
   tt (map log2p1 (group_slice expr design 1 (snd r)))
      (map log2p1 (group_slice expr design 0 (snd r))) = None"
  by (auto simp: test_gene_def group_slice_def Let_def split: option.splits)

lemma run_simple_Inr:
  assumes "run_simple_differential_expression tt fdr expr design = Inr rs"
  shows "length (unique (map snd design)) = 2
    \<and> (\<exists>results. map (test_gene tt expr (samples_with design (unique (map snd design) ! 0))
                       (samples_with design (unique (map snd design) ! 1))) (rows expr)
                   = map Some results
          \<and> rs = map (\<lambda>(r, p). result_row.extend r \<lparr>padj = p\<rparr>)
                   (zip results (fdr (map pvalue results))))"
proof -
  have two: "length (unique (map snd design)) = 2"
    using assms by (auto simp: run_simple_differential_expression_def Let_def split: if_splits)
  let ?f = "test_gene tt expr (samples_with design (unique (map snd design) ! 0))
              (samples_with design (unique (map snd design) ! 1))"
  obtain results where th: "those (map ?f (rows expr)) = Some results"
    using assms two
    by (cases "those (map ?f (rows expr))")
       (auto simp: run_simple_differential_expression_def Let_def)
  have "rs = map (\<lambda>(r, p). result_row.extend r \<lparr>padj = p\<rparr>)
               (zip results (fdr (map pvalue results)))"
    using assms two th
    by (auto simp: run_simple_differential_expression_def Let_def split: if_splits)
  then show ?thesis
    using two those_Some_map [OF th] by blast
qed

lemma extend_fields:
  "gene (result_row.extend r \<lparr>padj = p\<rparr>) = gene r"
  "log2FoldChange (result_row.extend r \<lparr>padj = p\<rparr>) = log2FoldChange r"
  "stat (result_row.extend r \<lparr>padj = p\<rparr>) = stat r"
  "pvalue (result_row.extend r \<lparr>padj = p\<rparr>) = pvalue r"
  "padj (result_row.extend r \<lparr>padj = p\<rparr>) = p"
  by (simp_all add: result_row.defs)

lemma run_simple_record:
  assumes "run_simple_differential_expression tt fdr expr design = Inr rs"
    and "r \<in> set rs"
  shows "\<exists>vs. (gene r, vs) \<in> set (rows expr)
    \<and> log2FoldChange r = mean (map log2p1 (group_slice expr design 1 vs))
                          - mean (map log2p1 (group_slice expr design 0 vs))
    \<and> tt (map log2p1 (group_slice expr design 1 vs))
          (map log2p1 (group_slice expr design 0 vs)) = Some (stat r, pvalue r)"
proof -
  let ?f = "test_gene tt expr (samples_with design (unique (map snd design) ! 0))
              (samples_with design (unique (map snd design) ! 1))"
  obtain results where m: "map ?f (rows expr) = map Some results"
    and rs: "rs = map (\<lambda>(r, p). result_row.extend r \<lparr>padj = p\<rparr>)
                   (zip results (fdr (map pvalue results)))"
    using run_simple_Inr [OF assms(1)] by blast
  obtain r0 p where r0: "r0 \<in> set results" and r: "r = result_row.extend r0 \<lparr>padj = p\<rparr>"
    using assms(2) unfolding rs by (auto dest: set_zip_leftD)
  have "Some r0 \<in> set (map ?f (rows expr))"
    using r0 m by simp
  then obtain x where x: "x \<in> set (rows expr)" and fx: "?f x = Some r0"
    by auto
  have "(gene r, snd x) \<in> set (rows expr)"
    using x test_gene_Some [OF fx] by (simp add: r extend_fields)
  then show ?thesis
    using test_gene_Some [OF fx]
    by (intro exI [of _ "snd x"]) (simp add: r extend_fields)
qed

lemma run_simple_index:
  assumes "\<And>ps. length (fdr ps) = length ps"
    and "run_simple_differential_expression tt fdr expr design = Inr rs"
  shows "map gene rs = index expr"
proof -
  let ?f = "test_gene tt expr (samples_with design (unique (map snd design) ! 0))
              (samples_with design (unique (map snd design) ! 1))"
  obtain results where m: "map ?f (rows expr) = map Some results"
    and rs: "rs = map (\<lambda>(r, p). result_row.extend r \<lparr>padj = p\<rparr>)
                   (zip results (fdr (map pvalue results)))"
    using run_simple_Inr [OF assms(2)] by blast
  have len: "length results = length (rows expr)"
    using m by (metis length_map)
  have "map gene results = map fst (rows expr)"
  proof (rule nth_equalityI)
    show "length (map gene results) = length (map fst (rows expr))"
      using len by simp
  next
    fix i assume "i < length (map gene results)"
    then have i: "i < length results" by simp
    then have "?f (rows expr ! i) = Some (results ! i)"
      using m len by (metis nth_map)
    from test_gene_Some [OF this] show "map gene results ! i = map fst (rows expr) ! i"
      using i len by simp
  qed
  moreover have "map gene rs = map gene results"
  proof -
    have "map gene rs = map (gene \<circ> fst) (zip results (fdr (map pvalue results)))"
      unfolding rs by (simp add: extend_fields split_def comp_def)
    also have "\<dots> = map gene (map fst (zip results (fdr (map pvalue results))))"
      by simp
    also have "\<dots> = map gene results"
      using assms(1) by simp
    finally show ?thesis .
  qed
  ultimately show ?thesis by (simp add: index_def)
qed

lemma run_simple_raises:
  assumes "length (unique (map snd design)) = 2"
    and "r \<in> set (rows expr)"
    and "tt (map log2p1 (group_slice expr design 1 (snd r)))
            (map log2p1 (group_slice expr design 0 (snd r))) = None"
  shows "run_simple_differential_expression tt fdr expr design = Inl Raised_by_ttest_ind"
proof -
  let ?f = "test_gene tt expr (samples_with design (unique (map snd design) ! 0))
              (samples_with design (unique (map snd design) ! 1))"
  have "?f r = None" using assms(3) test_gene_None [of tt expr design r] by blast
  then have "None \<in> set (map ?f (rows expr))"
    using assms(2) by force
  then have "those (map ?f (rows expr)) = None"
    by (simp add: those_None_iff)
  then show ?thesis
    using assms(1) by (simp add: run_simple_differential_expression_def Let_def)
qed

lemma run_simple_ValueError:
  "run_simple_differential_expression tt fdr expr design = Inl (Raised ValueError)
     \<longleftrightarrow> length (unique (map snd design)) \<noteq> 2"
  by (auto simp: run_simple_differential_expression_def Let_def split: option.splits)

subsection \<open>The examples evaluated\<close>

lemma log2p1_pow: "log2p1 (2 ^ n - 1) = real n"
  by (simp add: log2p1_def)

lemma log2p1_values:
  "log2p1 0 = 0" "log2p1 1 = 1" "log2p1 3 = 2" "log2p1 7 = 3" "log2p1 15 = 4" "log2p1 31 = 5"
  using log2p1_pow [of 0] log2p1_pow [of 1] log2p1_pow [of 2] log2p1_pow [of 3]
    log2p1_pow [of 4] log2p1_pow [of 5]
  by simp_all

lemma length_benjamini_hochberg: "length (benjamini_hochberg ps) = length ps"
  by (simp add: benjamini_hochberg_def Let_def)

lemma argsort_three: "argsort [1, 31 / 10000, 213 / 10000] = [1, 2, 0]"
  by (simp add: argsort_def upt_rec)

lemma rank_scaled_three:
  "rank_scaled [31 / 10000, 213 / 10000, 1] = [93 / 10000, 639 / 20000, 1]"
  by (simp add: rank_scaled_def upt_rec)

lemma running_min_three:
  "running_min [93 / 10000, 639 / 20000, 1] = [93 / 10000, 639 / 20000, 1]"
  by simp

lemma clip01_three:
  "map clip01 [93 / 10000, 639 / 20000, 1] = [93 / 10000, 639 / 20000, 1]"
  by (simp add: clip01_def)

lemma reorder_three:
  "map (\<lambda>i. case map_of (zip [1, 2, 0] [a, b, c]) i of Some a \<Rightarrow> a | None \<Rightarrow> (0::real))
     [0..<3] = [c, a, b]"
  by (simp add: upt_rec)

lemma benjamini_hochberg_three:
  "benjamini_hochberg [1, 31 / 10000, 213 / 10000] = [1, 93 / 10000, 639 / 20000]"
proof -
  have "map (\<lambda>i. [1, 31 / 10000, 213 / 10000] ! i) [1, 2, 0]
      = [31 / 10000, 213 / 10000, (1::real)]"
    by simp
  then show ?thesis
    unfolding benjamini_hochberg_def Let_def argsort_three
    by (simp only: rank_scaled_three running_min_three clip01_three list.size length_Cons)
       (simp add: reorder_three)
qed

lemma unique_median_design: "unique (map snd median_design) = [''Low'', ''High'']"
  by (simp add: unique_def median_design_def)

lemma samples_median_design:
  "samples_with median_design ''Low'' = [''s1'', ''s2'', ''s3'']"
  "samples_with median_design ''High'' = [''s4'', ''s5'', ''s6'']"
  by (simp_all add: samples_with_def median_design_def)

lemma six_samples_columns:
  "columns (expression_data six_samples) = [''s1'', ''s2'', ''s3'', ''s4'', ''s5'', ''s6'']"
  by (simp add: six_samples_def)

lemma select_six:
  "select (zip [''s1'', ''s2'', ''s3'', ''s4'', ''s5'', ''s6''] [a, b, c, d, e, f])
      [''s1'', ''s2'', ''s3''] = [a, b, c]"
  "select (zip [''s1'', ''s2'', ''s3'', ''s4'', ''s5'', ''s6''] [a, b, c, d, e, f])
      [''s4'', ''s5'', ''s6''] = [d, e, f]"
  by (simp_all add: select_def)

lemma ttest_ind_example_values:
  "ttest_ind_example [1, 2, 3] [1, 2, 3] = Some (0, 1)"
  "ttest_ind_example [3, 3, 4] [0, 0, 1] = Some (6364 / 1000, 31 / 10000)"
  "ttest_ind_example [3, 4, 5] [0, 1, 2] = Some (3674 / 1000, 213 / 10000)"
  "ttest_ind_example [1, 3, 7] [0, 1, 3] = Some (11832 / 10000, 3023 / 10000)"
  by (simp_all add: ttest_ind_example_def)

lemma mean_three: "mean [a, b, c] = (a + b + c) / 3"
  by (simp add: mean_def)

lemma mean_six: "mean [a, b, c, d, e, f] = (a + b + c + d + e + f) / 6"
  by (simp add: mean_def)

lemma six_samples_genes:
  "test_gene ttest_ind_example (expression_data six_samples)
      [''s1'', ''s2'', ''s3''] [''s4'', ''s5'', ''s6''] (''G1'', [1, 3, 7, 1, 3, 7])
     = Some \<lparr>gene = ''G1'', baseMean = 11 / 3, log2FoldChange = 0, stat = 0, pvalue = 1\<rparr>"
  "test_gene ttest_ind_example (expression_data six_samples)
      [''s1'', ''s2'', ''s3''] [''s4'', ''s5'', ''s6''] (''G2'', [0, 0, 1, 7, 7, 15])
     = Some \<lparr>gene = ''G2'', baseMean = 5, log2FoldChange = 3, stat = 6364 / 1000,
              pvalue = 31 / 10000\<rparr>"
  "test_gene ttest_ind_example (expression_data six_samples)
      [''s1'', ''s2'', ''s3''] [''s4'', ''s5'', ''s6''] (''D'', [0, 1, 3, 7, 15, 31])
     = Some \<lparr>gene = ''D'', baseMean = 19 / 2, log2FoldChange = 3, stat = 3674 / 1000,
              pvalue = 213 / 10000\<rparr>"
  unfolding test_gene_def six_samples_columns snd_conv fst_conv select_six Let_def
  by (simp_all add: log2p1_values ttest_ind_example_values mean_three mean_six)

lemma six_samples_run:
  "run_simple_differential_expression ttest_ind_example benjamini_hochberg
     (expression_data six_samples) median_design = Inr six_samples_table"
proof -
  have r: "rows (expression_data six_samples) =
      [(''G1'', [1, 3, 7, 1, 3, 7]), (''G2'', [0, 0, 1, 7, 7, 15]), (''D'', [0, 1, 3, 7, 15, 31])]"
    by (simp add: six_samples_def)
  show ?thesis
    by (simp add: run_simple_differential_expression_def unique_median_design
        samples_median_design r six_samples_genes benjamini_hochberg_three
        six_samples_table_def result_row.defs Let_def)
qed

lemma six_samples_resolve:
  "resolve_gene_id six_samples (expression_data six_samples) ''D'' = Inr ''D''"
  by code_simp

lemma six_samples_median:
  "create_expression_groups six_samples (expression_data six_samples) ''D'' ''Median split''
     = Inr median_design"
  unfolding create_expression_groups_def six_samples_resolve
  by (simp add: six_samples_def loc_def median_def quantile_def Let_def median_design_def)

lemma six_samples_quartile:
  "create_expression_groups six_samples (expression_data six_samples) ''D'' ''Quartile split''
     = Inr [(''s1'', ''Low''), (''s2'', ''Low''), (''s3'', ''Medium''),
            (''s4'', ''Medium''), (''s5'', ''High''), (''s6'', ''High'')]"
  unfolding create_expression_groups_def six_samples_resolve
  by (simp add: six_samples_def loc_def quantile_def Let_def quantile_label_def)

lemma six_samples_tertile:
  "create_expression_groups six_samples (expression_data six_samples) ''D'' ''Tertile split''
     = Inr [(''s1'', ''Low''), (''s2'', ''Low''), (''s3'', ''Medium''),
            (''s4'', ''Medium''), (''s5'', ''High''), (''s6'', ''High'')]"
  unfolding create_expression_groups_def six_samples_resolve
  by (simp add: six_samples_def loc_def quantile_def Let_def quantile_label_def)

lemma one_gene_slices:
  "sample_slice one_gene [''s4'', ''s5'', ''s6''] [0, 1, 3, 1, 3, 7] = [1, 3, 7]"
  "sample_slice one_gene [''s1'', ''s2'', ''s3''] [0, 1, 3, 1, 3, 7] = [0, 1, 3]"
  by (simp_all add: sample_slice_def one_gene_def select_def)

lemma one_gene_run:
  "map gene_id (run_differential_expression ttest_ind_example one_gene
      [''s4'', ''s5'', ''s6''] [''s1'', ''s2'', ''s3'']) = [''G3'']"
  "map log2_fold_change (run_differential_expression ttest_ind_example one_gene
      [''s4'', ''s5'', ''s6''] [''s1'', ''s2'', ''s3''])
     = [log 2 ((11 / 3 + 1 / 10 ^ 6) / (4 / 3 + 1 / 10 ^ 6))]"
  by (simp_all add: run_differential_expression_def de_gene_def one_gene_def select_def
      ttest_ind_example_def mean_def Let_def List.map_filter_simps)

lemma four_samples_resolve:
  "resolve_gene_id four_samples (expression_data four_samples) ''D'' = Inr ''D''"
  by code_simp

lemma four_samples_find: "find_target_gene four_samples ''D'' = Some ''D''"
  by code_simp

section \<open>Claims about the engines\<close>

lemma run_differential_expression_record:
  assumes "w \<in> set (run_differential_expression tt st hs ls)"
  shows "\<exists>vs t. (gene_id w, vs) \<in> set (rows (expression_data st))
    \<and> tt (sample_slice st hs vs) (sample_slice st ls vs) = Some (t, p_value w)
    \<and> log2_fold_change w =
        log 2 ((mean (sample_slice st hs vs) + 1 / 10 ^ 6)
               / (mean (sample_slice st ls vs) + 1 / 10 ^ 6))"
proof -
  obtain x where x: "x \<in> set (rows (expression_data st))"
    and fx: "de_gene tt st hs ls x = Some w"
    using assms map_filter_mem unfolding run_differential_expression_def by fast
  from de_gene_Some [OF fx] obtain t where
    g: "gene_id w = fst x"
    and t: "tt (sample_slice st hs (snd x)) (sample_slice st ls (snd x)) = Some (t, p_value w)"
    and l: "log2_fold_change w =
        log 2 ((mean (sample_slice st hs (snd x)) + 1 / 10 ^ 6)
               / (mean (sample_slice st ls (snd x)) + 1 / 10 ^ 6))"
    by blast
  have "(gene_id w, snd x) \<in> set (rows (expression_data st))"
    using x g by simp
  then show ?thesis using t l by blast
qed

text \<open>
  Claim C1, as the code has it. In the enhanced engine every record of the table
  belongs to a row of the frame; the t-test was run on the \<open>log2(x + 1)\<close> transforms of
  the two group slices of that row, and the reported fold change is the mean of the
  transformed slice of group B minus that of group A, where A and B are the first and
  the second distinct label of the design matrix. In the web app engine the t-test is
  run on the raw slices, and the fold change is \<open>log2\<close> of the ratio of the raw means,
  each increased by \<open>1e-6\<close>.
\<close>

theorem fold_change_formulas:
  "(run_simple_differential_expression tt fdr expr design = Inr rs \<and> r \<in> set rs \<longrightarrow>
      (\<exists>vs. (gene r, vs) \<in> set (rows expr)
         \<and> log2FoldChange r = mean (map log2p1 (group_slice expr design 1 vs))
                               - mean (map log2p1 (group_slice expr design 0 vs))
         \<and> tt (map log2p1 (group_slice expr design 1 vs))
               (map log2p1 (group_slice expr design 0 vs)) = Some (stat r, pvalue r)))
   \<and> (w \<in> set (run_differential_expression tt st hs ls) \<longrightarrow>
      (\<exists>vs t. (gene_id w, vs) \<in> set (rows (expression_data st))
         \<and> tt (sample_slice st hs vs) (sample_slice st ls vs) = Some (t, p_value w)
         \<and> log2_fold_change w =
             log 2 ((mean (sample_slice st hs vs) + 1 / 10 ^ 6)
                    / (mean (sample_slice st ls vs) + 1 / 10 ^ 6))))"
  using run_simple_record [of tt fdr expr design rs r]
    run_differential_expression_record [of w tt st hs ls]
  by blast

theorem fold_change_formulas_witness:
  "run_simple_differential_expression ttest_ind_example benjamini_hochberg
      (expression_data six_samples) median_design = Inr six_samples_table
   \<and> hd six_samples_table \<in> set six_samples_table
   \<and> (\<exists>vs. (gene (hd six_samples_table), vs) \<in> set (rows (expression_data six_samples))
         \<and> log2FoldChange (hd six_samples_table)
             = mean (map log2p1 (group_slice (expression_data six_samples) median_design 1 vs))
               - mean (map log2p1 (group_slice (expression_data six_samples) median_design 0 vs)))
   \<and> hd (run_differential_expression ttest_ind_example one_gene
            [''s4'', ''s5'', ''s6''] [''s1'', ''s2'', ''s3''])
        \<in> set (run_differential_expression ttest_ind_example one_gene
            [''s4'', ''s5'', ''s6''] [''s1'', ''s2'', ''s3''])
   \<and> (\<exists>vs. log2_fold_change (hd (run_differential_expression ttest_ind_example one_gene
            [''s4'', ''s5'', ''s6''] [''s1'', ''s2'', ''s3'']))
         = log 2 ((mean (sample_slice one_gene [''s4'', ''s5'', ''s6''] vs) + 1 / 10 ^ 6)
                  / (mean (sample_slice one_gene [''s1'', ''s2'', ''s3''] vs) + 1 / 10 ^ 6)))"
proof -
  let ?web = "run_differential_expression ttest_ind_example one_gene
      [''s4'', ''s5'', ''s6''] [''s1'', ''s2'', ''s3'']"
  have ev: "run_simple_differential_expression ttest_ind_example benjamini_hochberg
      (expression_data six_samples) median_design = Inr six_samples_table"
    by (rule six_samples_run)
  have m: "hd six_samples_table \<in> set six_samples_table"
    by (simp add: six_samples_table_def)
  have "?web \<noteq> []"
    using one_gene_run(1) by auto
  then have mw: "hd ?web \<in> set ?web" by simp
  note th = fold_change_formulas [of ttest_ind_example benjamini_hochberg
      "expression_data six_samples" median_design six_samples_table "hd six_samples_table"
      "hd ?web" one_gene "[''s4'', ''s5'', ''s6'']" "[''s1'', ''s2'', ''s3'']"]
  show ?thesis
    using ev m mw th by blast
qed

text \<open>
  The web app on a gene with the raw slices \<open>[1, 3, 7]\<close> (high) and \<open>[0, 1, 3]\<close> (low):
  the difference of the means of the \<open>log2(x + 1)\<close> transforms is \<open>2 - 1 = 1\<close>, and the
  reported fold change is \<open>log2\<close> of \<open>(11/3 + 1e-6) / (4/3 + 1e-6)\<close>, which is not 1.
\<close>

theorem fold_change_formulas_counterexample:
  "map gene_id (run_differential_expression ttest_ind_example one_gene
      [''s4'', ''s5'', ''s6''] [''s1'', ''s2'', ''s3'']) = [''G3'']
   \<and> map log2_fold_change (run_differential_expression ttest_ind_example one_gene
      [''s4'', ''s5'', ''s6''] [''s1'', ''s2'', ''s3''])
       = [log 2 ((11 / 3 + 1 / 10 ^ 6) / (4 / 3 + 1 / 10 ^ 6))]
   \<and> mean (map log2p1 (sample_slice one_gene [''s4'', ''s5'', ''s6''] [0, 1, 3, 1, 3, 7]))
       - mean (map log2p1 (sample_slice one_gene [''s1'', ''s2'', ''s3''] [0, 1, 3, 1, 3, 7])) = 1
   \<and> log 2 ((11 / 3 + 1 / 10 ^ 6) / (4 / 3 + 1 / 10 ^ 6)) \<noteq> 1"
proof -
  have d: "mean (map log2p1 (sample_slice one_gene [''s4'', ''s5'', ''s6''] [0, 1, 3, 1, 3, 7]))
       - mean (map log2p1 (sample_slice one_gene [''s1'', ''s2'', ''s3''] [0, 1, 3, 1, 3, 7])) = 1"
    by (simp add: one_gene_slices log2p1_values mean_three)
  have gt: "(2::real) < (11 / 3 + 1 / 10 ^ 6) / (4 / 3 + 1 / 10 ^ 6)"
    by simp
  have "log 2 2 < log 2 ((11 / 3 + 1 / 10 ^ 6) / (4 / 3 + 1 / 10 ^ 6))"
    using gt by (subst log_less_cancel_iff) simp_all
  moreover have "log 2 2 = (1::real)"
    by simp
  ultimately have l: "log 2 ((11 / 3 + 1 / 10 ^ 6) / (4 / 3 + 1 / 10 ^ 6)) \<noteq> 1"
    by linarith
  show ?thesis
    using one_gene_run d l by blast
qed

text \<open>
  Claim C10. The enhanced engine raises its \<open>ValueError\<close> exactly when the condition
  column does not hold two distinct labels, and then returns no table. A design with
  the three labels \<open>High\<close>, \<open>Medium\<close> and \<open>Low\<close> is rejected; the quartile and the
  tertile split of row \<open>D\<close> of \<open>six_samples\<close> produce such a design, so the analysis
  fails with \<open>ValueError\<close> whatever the t-test and the correction do.
\<close>

theorem two_groups_required:
  "(run_simple_differential_expression tt fdr expr design = Inl (Raised ValueError)
      \<longleftrightarrow> card (set (map snd design)) \<noteq> 2)
   \<and> (set (map snd design) = {''High'', ''Medium'', ''Low''} \<longrightarrow>
        run_simple_differential_expression tt fdr expr design = Inl (Raised ValueError))
   \<and> differential_expression_section tt fdr six_samples ''D'' ''Quartile split''
        = Inl (Raised ValueError)
   \<and> differential_expression_section tt fdr six_samples ''D'' ''Tertile split''
        = Inl (Raised ValueError)"
proof -
  have iff: "run_simple_differential_expression tt fdr expr design = Inl (Raised ValueError)
      \<longleftrightarrow> card (set (map snd design)) \<noteq> 2"
    using run_simple_ValueError [of tt fdr expr design] length_unique [of "map snd design"]
    by simp
  have three: "card {''High'', ''Medium'', ''Low''} = 3"
    by simp
  have imp: "set (map snd design) = {''High'', ''Medium'', ''Low''} \<longrightarrow>
      run_simple_differential_expression tt fdr expr design = Inl (Raised ValueError)"
    using iff three by simp
  let ?d = "[(''s1'', ''Low''), (''s2'', ''Low''), (''s3'', ''Medium''),
             (''s4'', ''Medium''), (''s5'', ''High''), (''s6'', ''High'')]"
  have u: "unique (map snd ?d) = [''Low'', ''Medium'', ''High'']"
    by (simp add: unique_def)
  have e: "run_simple_differential_expression tt fdr (expression_data six_samples) ?d
      = Inl (Raised ValueError)"
    using run_simple_ValueError [of tt fdr "expression_data six_samples" ?d] u by simp
  have q: "differential_expression_section tt fdr six_samples ''D'' ''Quartile split''
      = Inl (Raised ValueError)"
    unfolding differential_expression_section_def six_samples_quartile using e by simp
  have t: "differential_expression_section tt fdr six_samples ''D'' ''Tertile split''
      = Inl (Raised ValueError)"
    unfolding differential_expression_section_def six_samples_tertile using e by simp
  show ?thesis
    using iff imp q t by blast
qed

theorem two_groups_required_witness:
  "set (map snd [(''a'', ''High''), (''b'', ''Medium''), (''c'', ''Low'')])
      = {''High'', ''Medium'', ''Low''}
   \<and> run_simple_differential_expression ttest_ind_example benjamini_hochberg
        (expression_data six_samples) [(''a'', ''High''), (''b'', ''Medium''), (''c'', ''Low'')]
        = Inl (Raised ValueError)"
proof -
  have s: "set (map snd [(''a'', ''High''), (''b'', ''Medium''), (''c'', ''Low'')])
      = {''High'', ''Medium'', ''Low''}"
    by simp
  show ?thesis
    using s two_groups_required [of ttest_ind_example benjamini_hochberg
        "expression_data six_samples" "[(''a'', ''High''), (''b'', ''Medium''), (''c'', ''Low'')]"]
    by blast
qed

subsection \<open>Group sizes\<close>

lemma group_samples_returns:
  assumes "loc (expression_data st) k = Inr row"
    and "m = ''Median split'' \<or> m = ''Quartile split (top 25% vs bottom 25%)''"
  shows "\<exists>h l. group_samples st k m = Inr (h, l)"
  using assms by (auto simp: group_samples_def Let_def)

lemma create_expression_groups_returns:
  assumes "resolve_gene_id st expr t = Inr k" and "loc expr k = Inr row"
    and "m = ''Median split'' \<or> m = ''Quartile split'' \<or> m = ''Tertile split''"
  shows "\<exists>d. create_expression_groups st expr t m = Inr d"
  using assms by (auto simp: create_expression_groups_def Let_def)

lemma analysis_section_small:
  assumes "distinct (columns (expression_data st))"
    and "find_target_gene st t = Some k"
    and "group_samples st k m = Inr (h, l)"
    and "length h < 3 \<or> length l < 3"
  shows "analysis_section tt fdc st t p fc m = Inl (Analysis_failed KeyError)"
  using assms(2,3) run_differential_expression_small [OF assms(1,4), of tt]
  by (simp add: analysis_section_def)

lemma run_differential_expression_all:
  assumes "distinct (columns (expression_data st))"
    and "set h \<subseteq> set (columns (expression_data st))"
    and "set l \<subseteq> set (columns (expression_data st))"
    and "3 \<le> length h" and "3 \<le> length l"
    and "\<forall>r \<in> set (rows (expression_data st)).
           length (snd r) = length (columns (expression_data st))
           \<and> tt (sample_slice st h (snd r)) (sample_slice st l (snd r)) \<noteq> None"
  shows "map gene_id (run_differential_expression tt st h l) = index (expression_data st)"
  unfolding run_differential_expression_def index_def
proof (rule map_filter_all_Some)
  fix x assume "x \<in> set (rows (expression_data st))"
  then have "length (snd x) = length (columns (expression_data st))"
    and "tt (sample_slice st h (snd x)) (sample_slice st l (snd x)) \<noteq> None"
    using assms(6) by auto
  then show "\<exists>y. de_gene tt st h l x = Some y \<and> gene_id y = fst x"
    using assms(1-5) by (intro de_gene_tested) auto
qed

lemma run_simple_returns:
  assumes "length (unique (map snd design)) = 2"
    and "rows expr \<noteq> []"
    and "\<forall>r \<in> set (rows expr).
           tt (map log2p1 (group_slice expr design 1 (snd r)))
              (map log2p1 (group_slice expr design 0 (snd r))) \<noteq> None"
    and "\<And>ps. length (fdr ps) = length ps"
  shows "\<exists>rs. run_simple_differential_expression tt fdr expr design = Inr rs
           \<and> map gene rs = index expr"
proof -
  let ?f = "test_gene tt expr (samples_with design (unique (map snd design) ! 0))
              (samples_with design (unique (map snd design) ! 1))"
  have nn: "\<forall>r \<in> set (rows expr). ?f r \<noteq> None"
    using assms(3) test_gene_None [of tt expr design] by blast
  have "None \<notin> set (map ?f (rows expr))"
  proof
    assume "None \<in> set (map ?f (rows expr))"
    then obtain r where r: "r \<in> set (rows expr)" and eq: "None = ?f r"
      unfolding set_map by (rule imageE)
    from nn r have "?f r \<noteq> None" by (rule bspec)
    with eq show False by simp
  qed
  then obtain results where th: "those (map ?f (rows expr)) = Some results"
    using those_None_iff [of "map ?f (rows expr)"] by (cases "those (map ?f (rows expr))") auto
  have "length results = length (rows expr)"
    using those_Some_map [OF th] by (metis length_map)
  then have ne: "results \<noteq> []"
    using assms(2) by auto
  have "\<exists>rs. run_simple_differential_expression tt fdr expr design = Inr rs"
    using assms(1) th ne by (simp add: run_simple_differential_expression_def Let_def)
  then show ?thesis
    using run_simple_index [OF assms(4)] by blast
qed

lemma ttest_ind_example_returns: "ttest_ind_example a b \<noteq> None"
  by (simp add: ttest_ind_example_def del: not_None_eq)

lemma select_six_pairs:
  "select [(''s1'', a), (''s2'', b), (''s3'', c), (''s4'', d), (''s5'', e), (''s6'', f)]
      [''s1'', ''s2'', ''s3''] = [a, b, c]"
  "select [(''s1'', a), (''s2'', b), (''s3'', c), (''s4'', d), (''s5'', e), (''s6'', f)]
      [''s4'', ''s5'', ''s6''] = [d, e, f]"
  by (simp_all add: select_def)

lemma six_samples_slices:
  "sample_slice six_samples [''s1'', ''s2'', ''s3''] [a, b, c, d, e, f] = [a, b, c]"
  "sample_slice six_samples [''s4'', ''s5'', ''s6''] [a, b, c, d, e, f] = [d, e, f]"
  "group_slice (expression_data six_samples) median_design 0 [a, b, c, d, e, f] = [a, b, c]"
  "group_slice (expression_data six_samples) median_design 1 [a, b, c, d, e, f] = [d, e, f]"
  by (simp_all add: sample_slice_def group_slice_def six_samples_columns select_six_pairs
      unique_median_design samples_median_design)

lemma four_samples_stratify:
  "group_samples four_samples ''D'' ''Median split'' = Inr ([''s3'', ''s4''], [''s1'', ''s2''])"
  by (simp add: group_samples_def four_samples_def loc_def labels_where_def median_def
      quantile_def Let_def)

lemma four_samples_design:
  "create_expression_groups four_samples (expression_data four_samples) ''D'' ''Median split''
     = Inr [(''s1'', ''Low''), (''s2'', ''Low''), (''s3'', ''High''), (''s4'', ''High'')]"
  unfolding create_expression_groups_def four_samples_resolve
  by (simp add: four_samples_def loc_def median_def quantile_def Let_def)

text \<open>
  Claim C2, as the code has it. Neither variant checks group sizes while it
  stratifies: \<open>group_samples\<close> (median and quartile split) and
  \<open>create_expression_groups\<close> return their groups whenever the target row exists. In
  the web app, when a group has fewer than three samples the engine skips every gene,
  and the handler then fails with \<open>KeyError\<close> on the empty table; when both groups have
  at least three samples, every gene whose t-test returns gets a record. The enhanced
  engine has no size check: for a design with two labels it returns a table with one
  record per row whenever the t-test returns.
\<close>

theorem group_size_handling:
  assumes "distinct (columns (expression_data st))"
  shows "(loc (expression_data st) k = Inr row
          \<and> (m = ''Median split'' \<or> m = ''Quartile split (top 25% vs bottom 25%)'') \<longrightarrow>
            (\<exists>h l. group_samples st k m = Inr (h, l)))
     \<and> (resolve_gene_id st (expression_data st) t = Inr k \<and> loc (expression_data st) k = Inr row
          \<and> (m' = ''Median split'' \<or> m' = ''Quartile split'' \<or> m' = ''Tertile split'') \<longrightarrow>
            (\<exists>d. create_expression_groups st (expression_data st) t m' = Inr d))
     \<and> (length h < 3 \<or> length l < 3 \<longrightarrow> run_differential_expression tt st h l = [])
     \<and> (find_target_gene st t = Some k \<and> group_samples st k m = Inr (h, l)
          \<and> (length h < 3 \<or> length l < 3) \<longrightarrow>
            analysis_section tt fdc st t p fc m = Inl (Analysis_failed KeyError))
     \<and> (3 \<le> length h \<and> 3 \<le> length l
          \<and> set h \<subseteq> set (columns (expression_data st))
          \<and> set l \<subseteq> set (columns (expression_data st))
          \<and> (\<forall>r \<in> set (rows (expression_data st)).
                length (snd r) = length (columns (expression_data st))
                \<and> tt (sample_slice st h (snd r)) (sample_slice st l (snd r)) \<noteq> None) \<longrightarrow>
            map gene_id (run_differential_expression tt st h l) = index (expression_data st))
     \<and> (length (unique (map snd design)) = 2 \<and> rows expr \<noteq> []
          \<and> (\<forall>r \<in> set (rows expr).
                tt (map log2p1 (group_slice expr design 1 (snd r)))
                   (map log2p1 (group_slice expr design 0 (snd r))) \<noteq> None)
          \<and> (\<forall>ps. length (fdr ps) = length ps) \<longrightarrow>
            (\<exists>rs'. run_simple_differential_expression tt fdr expr design = Inr rs'
               \<and> map gene rs' = index expr))"
proof -
  have a: "loc (expression_data st) k = Inr row
      \<and> (m = ''Median split'' \<or> m = ''Quartile split (top 25% vs bottom 25%)'') \<longrightarrow>
        (\<exists>h l. group_samples st k m = Inr (h, l))"
    using group_samples_returns [of st k row m] by blast
  have b: "resolve_gene_id st (expression_data st) t = Inr k \<and> loc (expression_data st) k = Inr row
      \<and> (m' = ''Median split'' \<or> m' = ''Quartile split'' \<or> m' = ''Tertile split'') \<longrightarrow>
        (\<exists>d. create_expression_groups st (expression_data st) t m' = Inr d)"
    using create_expression_groups_returns [of st "expression_data st" t k row m'] by blast
  have c: "length h < 3 \<or> length l < 3 \<longrightarrow> run_differential_expression tt st h l = []"
    using run_differential_expression_small [OF assms, of h l tt] by blast
  have d: "find_target_gene st t = Some k \<and> group_samples st k m = Inr (h, l)
      \<and> (length h < 3 \<or> length l < 3) \<longrightarrow>
        analysis_section tt fdc st t p fc m = Inl (Analysis_failed KeyError)"
    using analysis_section_small [OF assms, of t k m h l tt fdc p fc] by blast
  have e: "3 \<le> length h \<and> 3 \<le> length l
      \<and> set h \<subseteq> set (columns (expression_data st))
      \<and> set l \<subseteq> set (columns (expression_data st))
      \<and> (\<forall>r \<in> set (rows (expression_data st)).
            length (snd r) = length (columns (expression_data st))
            \<and> tt (sample_slice st h (snd r)) (sample_slice st l (snd r)) \<noteq> None) \<longrightarrow>
        map gene_id (run_differential_expression tt st h l) = index (expression_data st)"
    using run_differential_expression_all [OF assms, of h l tt] by blast
  have f: "length (unique (map snd design)) = 2 \<and> rows expr \<noteq> []
      \<and> (\<forall>r \<in> set (rows expr).
            tt (map log2p1 (group_slice expr design 1 (snd r)))
               (map log2p1 (group_slice expr design 0 (snd r))) \<noteq> None)
      \<and> (\<forall>ps. length (fdr ps) = length ps) \<longrightarrow>
        (\<exists>rs'. run_simple_differential_expression tt fdr expr design = Inr rs'
           \<and> map gene rs' = index expr)"
    using run_simple_returns [of design expr tt fdr] by blast
  show ?thesis
    using a b c d e f by blast
qed

theorem group_size_handling_witness:
  "distinct (columns (expression_data four_samples))
   \<and> find_target_gene four_samples ''D'' = Some ''D''
   \<and> group_samples four_samples ''D'' ''Median split'' = Inr ([''s3'', ''s4''], [''s1'', ''s2''])
   \<and> run_differential_expression ttest_ind_example four_samples [''s3'', ''s4''] [''s1'', ''s2'']
        = []
   \<and> analysis_section ttest_ind_example benjamini_hochberg four_samples ''D'' (5 / 100) 1
        ''Median split'' = Inl (Analysis_failed KeyError)
   \<and> distinct (columns (expression_data six_samples))
   \<and> map gene_id (run_differential_expression ttest_ind_example six_samples
        [''s4'', ''s5'', ''s6''] [''s1'', ''s2'', ''s3'']) = [''G1'', ''G2'', ''D'']"
proof -
  have d4: "distinct (columns (expression_data four_samples))"
    by (simp add: four_samples_def)
  have len: "length [''s3'', ''s4''] < 3 \<or> length [''s1'', ''s2''] < 3"
    by simp
  note small = group_size_handling [OF d4, of "''D''" "[]" "''Median split''" "''D''"
      "''Median split''" "[''s3'', ''s4'']" "[''s1'', ''s2'']" ttest_ind_example
      benjamini_hochberg "5 / 100" 1]
  have s1: "run_differential_expression ttest_ind_example four_samples
      [''s3'', ''s4''] [''s1'', ''s2''] = []"
    using small len by blast
  have s2: "analysis_section ttest_ind_example benjamini_hochberg four_samples ''D'' (5 / 100) 1
      ''Median split'' = Inl (Analysis_failed KeyError)"
    using small len four_samples_find four_samples_stratify by blast
  have d6: "distinct (columns (expression_data six_samples))"
    by (simp add: six_samples_columns)
  have sub: "set [''s4'', ''s5'', ''s6''] \<subseteq> set (columns (expression_data six_samples))"
    "set [''s1'', ''s2'', ''s3''] \<subseteq> set (columns (expression_data six_samples))"
    by (simp_all add: six_samples_columns)
  have rows6: "\<forall>r \<in> set (rows (expression_data six_samples)).
      length (snd r) = length (columns (expression_data six_samples))
      \<and> ttest_ind_example (sample_slice six_samples [''s4'', ''s5'', ''s6''] (snd r))
           (sample_slice six_samples [''s1'', ''s2'', ''s3''] (snd r)) \<noteq> None"
    by (simp add: ttest_ind_example_returns six_samples_def)
  have len6: "3 \<le> length [''s4'', ''s5'', ''s6''] \<and> 3 \<le> length [''s1'', ''s2'', ''s3'']"
    by simp
  note large = group_size_handling [OF d6, of "''D''" "[]" "''Median split''" "''D''"
      "''Median split''" "[''s4'', ''s5'', ''s6'']" "[''s1'', ''s2'', ''s3'']" ttest_ind_example
      benjamini_hochberg "5 / 100" 1]
  have "map gene_id (run_differential_expression ttest_ind_example six_samples
      [''s4'', ''s5'', ''s6''] [''s1'', ''s2'', ''s3'']) = index (expression_data six_samples)"
    using large len6 sub rows6 by blast
  then have s3: "map gene_id (run_differential_expression ttest_ind_example six_samples
      [''s4'', ''s5'', ''s6''] [''s1'', ''s2'', ''s3'']) = [''G1'', ''G2'', ''D'']"
    by (simp add: index_def six_samples_def)
  show ?thesis
    using d4 four_samples_find four_samples_stratify s1 s2 d6 s3 by blast
qed

text \<open>
  A median split of four samples yields two groups of two. Both variants return the
  groups, and the enhanced engine goes on to produce a table for them.
\<close>

theorem group_size_handling_counterexample:
  "group_samples four_samples ''D'' ''Median split'' = Inr ([''s3'', ''s4''], [''s1'', ''s2''])
   \<and> create_expression_groups four_samples (expression_data four_samples) ''D'' ''Median split''
       = Inr [(''s1'', ''Low''), (''s2'', ''Low''), (''s3'', ''High''), (''s4'', ''High'')]
   \<and> map_sum id (map gene)
        (run_simple_differential_expression ttest_ind_example benjamini_hochberg
           (expression_data four_samples)
           [(''s1'', ''Low''), (''s2'', ''Low''), (''s3'', ''High''), (''s4'', ''High'')])
       = Inr [''D'']"
proof -
  let ?d = "[(''s1'', ''Low''), (''s2'', ''Low''), (''s3'', ''High''), (''s4'', ''High'')]"
  have u: "length (unique (map snd ?d)) = 2"
    by (simp add: unique_def)
  have ne: "rows (expression_data four_samples) \<noteq> []"
    by (simp add: four_samples_def)
  obtain rs where rs: "run_simple_differential_expression ttest_ind_example benjamini_hochberg
      (expression_data four_samples) ?d = Inr rs"
    and g: "map gene rs = index (expression_data four_samples)"
    using run_simple_returns [of ?d "expression_data four_samples" ttest_ind_example
        benjamini_hochberg, OF u ne] ttest_ind_example_returns length_benjamini_hochberg
    by blast
  have "map_sum id (map gene)
      (run_simple_differential_expression ttest_ind_example benjamini_hochberg
         (expression_data four_samples) ?d) = Inr [''D'']"
    unfolding rs using g by (simp add: index_def four_samples_def)
  then show ?thesis
    using four_samples_stratify four_samples_design by blast
qed

subsection \<open>Genes whose test fails\<close>

lemma run_differential_expression_drop:
  assumes "rows (expression_data st) = rs1 @ g # rs2"
    and "tt (sample_slice st hs (snd g)) (sample_slice st ls (snd g)) = None"
  shows "run_differential_expression tt st hs ls =
     run_differential_expression tt
       (st\<lparr>expression_data := (expression_data st)\<lparr>rows := rs1 @ rs2\<rparr>\<rparr>) hs ls"
proof -
  let ?st = "st\<lparr>expression_data := (expression_data st)\<lparr>rows := rs1 @ rs2\<rparr>\<rparr>"
  have f: "de_gene tt ?st hs ls = de_gene tt st hs ls"
    by (rule de_gene_frame) simp_all
  have n: "de_gene tt st hs ls g = None"
    using assms(2) by (rule de_gene_raises)
  have "run_differential_expression tt st hs ls
      = List.map_filter (de_gene tt st hs ls) rs1 @ List.map_filter (de_gene tt st hs ls) rs2"
    by (simp add: run_differential_expression_def assms(1) map_filter_append
        List.map_filter_simps n)
  also have "\<dots> = run_differential_expression tt ?st hs ls"
    by (simp add: run_differential_expression_def f map_filter_append)
  finally show ?thesis .
qed

text \<open>
  Claim C8, as the code has it. The web app drops a gene whose t-test raises: the
  table is the one obtained from the frame without that row, so the batch goes on and
  the other records are unchanged. The enhanced engine never drops a gene: a table it
  returns has one record for every row of the frame, in row order, and a t-test that
  raises on any row ends the whole run. Neither engine looks at the variance of a row.
\<close>

theorem per_gene_isolation:
  "(rows (expression_data st) = rs1 @ g # rs2
      \<and> tt (sample_slice st hs (snd g)) (sample_slice st ls (snd g)) = None \<longrightarrow>
        run_differential_expression tt st hs ls =
          run_differential_expression tt
            (st\<lparr>expression_data := (expression_data st)\<lparr>rows := rs1 @ rs2\<rparr>\<rparr>) hs ls)
   \<and> ((\<forall>ps. length (fdr ps) = length ps)
        \<and> run_simple_differential_expression tt fdr expr design = Inr rs \<longrightarrow>
          map gene rs = index expr)
   \<and> (length (unique (map snd design)) = 2 \<and> x \<in> set (rows expr)
        \<and> tt (map log2p1 (group_slice expr design 1 (snd x)))
              (map log2p1 (group_slice expr design 0 (snd x))) = None \<longrightarrow>
          run_simple_differential_expression tt fdr expr design = Inl Raised_by_ttest_ind)"
  using run_differential_expression_drop [of st rs1 g rs2 tt hs ls]
    run_simple_index [of fdr tt expr design rs]
    run_simple_raises [of design x expr tt fdr]
  by blast

theorem per_gene_isolation_witness:
  "rows (expression_data six_samples)
      = [] @ (''G1'', [1, 3, 7, 1, 3, 7]) # [(''G2'', [0, 0, 1, 7, 7, 15]), (''D'', [0, 1, 3, 7, 15, 31])]
   \<and> ttest_ind_raising
        (sample_slice six_samples [''s4'', ''s5'', ''s6''] (snd (''G1'', [1, 3, 7, 1, 3, 7])))
        (sample_slice six_samples [''s1'', ''s2'', ''s3''] (snd (''G1'', [1, 3, 7, 1, 3, 7]))) = None
   \<and> run_differential_expression ttest_ind_raising six_samples
        [''s4'', ''s5'', ''s6''] [''s1'', ''s2'', ''s3'']
      = run_differential_expression ttest_ind_raising
          (six_samples\<lparr>expression_data := (expression_data six_samples)
             \<lparr>rows := [] @ [(''G2'', [0, 0, 1, 7, 7, 15]), (''D'', [0, 1, 3, 7, 15, 31])]\<rparr>\<rparr>)
          [''s4'', ''s5'', ''s6''] [''s1'', ''s2'', ''s3'']
   \<and> (\<forall>ps. length (benjamini_hochberg ps) = length ps)
   \<and> map gene six_samples_table = index (expression_data six_samples)
   \<and> run_simple_differential_expression ttest_ind_raising benjamini_hochberg
        (expression_data six_samples) median_design = Inl Raised_by_ttest_ind"
proof -
  let ?g = "(''G1'', [1, 3, 7, 1, 3, 7 :: real])"
  let ?rs2 = "[(''G2'', [0, 0, 1, 7, 7, 15 :: real]), (''D'', [0, 1, 3, 7, 15, 31])]"
  have r: "rows (expression_data six_samples) = [] @ ?g # ?rs2"
    by (simp add: six_samples_def)
  have n: "ttest_ind_raising
      (sample_slice six_samples [''s4'', ''s5'', ''s6''] (snd ?g))
      (sample_slice six_samples [''s1'', ''s2'', ''s3''] (snd ?g)) = None"
    by (simp add: six_samples_slices ttest_ind_raising_def)
  have l: "\<forall>ps. length (benjamini_hochberg ps) = length ps"
    by (simp add: length_benjamini_hochberg)
  have u: "length (unique (map snd median_design)) = 2"
    by (simp add: unique_median_design)
  have m: "?g \<in> set (rows (expression_data six_samples))"
    by (simp add: six_samples_def)
  have e: "ttest_ind_raising
      (map log2p1 (group_slice (expression_data six_samples) median_design 1 (snd ?g)))
      (map log2p1 (group_slice (expression_data six_samples) median_design 0 (snd ?g))) = None"
    by (simp only: snd_conv six_samples_slices ttest_ind_raising_def) simp
  note web = per_gene_isolation [of six_samples "[]" ?g ?rs2 ttest_ind_raising
      "[''s4'', ''s5'', ''s6'']" "[''s1'', ''s2'', ''s3'']" benjamini_hochberg
      "expression_data six_samples" median_design six_samples_table ?g]
  note enh = per_gene_isolation [of six_samples "[]" ?g ?rs2 ttest_ind_example
      "[''s4'', ''s5'', ''s6'']" "[''s1'', ''s2'', ''s3'']" benjamini_hochberg
      "expression_data six_samples" median_design six_samples_table ?g]
  have w1: "run_differential_expression ttest_ind_raising six_samples
        [''s4'', ''s5'', ''s6''] [''s1'', ''s2'', ''s3'']
      = run_differential_expression ttest_ind_raising
          (six_samples\<lparr>expression_data := (expression_data six_samples)
             \<lparr>rows := [] @ ?rs2\<rparr>\<rparr>)
          [''s4'', ''s5'', ''s6''] [''s1'', ''s2'', ''s3'']"
    using web r n by blast
  have w2: "map gene six_samples_table = index (expression_data six_samples)"
    using enh l six_samples_run by blast
  have w3: "run_simple_differential_expression ttest_ind_raising benjamini_hochberg
        (expression_data six_samples) median_design = Inl Raised_by_ttest_ind"
    using web u m e by blast
  show ?thesis
    using r n w1 l w2 w3 by blast
qed

text \<open>
  A frame with a gene \<open>C\<close> that is constant over all samples: whatever the library
  t-test does on it, the enhanced engine does not return a table without \<open>C\<close>.
\<close>

theorem per_gene_isolation_counterexample:
  "\<not> (\<exists>tt rs. run_simple_differential_expression tt benjamini_hochberg constant_gene
          median_design = Inr rs \<and> ''C'' \<notin> gene ` set rs)"
proof
  assume "\<exists>tt rs. run_simple_differential_expression tt benjamini_hochberg constant_gene
          median_design = Inr rs \<and> ''C'' \<notin> gene ` set rs"
  then obtain tt rs where rs: "run_simple_differential_expression tt benjamini_hochberg
      constant_gene median_design = Inr rs" and c: "''C'' \<notin> gene ` set rs"
    by blast
  have "map gene rs = index constant_gene"
    using run_simple_index [OF length_benjamini_hochberg rs] .
  then have "set (map gene rs) = {''C'', ''D''}"
    by (simp add: index_def constant_gene_def)
  then have "''C'' \<in> gene ` set rs"
    by auto
  with c show False by contradiction
qed

section \<open>Properties of the Benjamini-Hochberg correction\<close>

subsection \<open>Running minimum, rank scaling and clipping\<close>

lemma length_running_min: "length (running_min xs) = length xs"
  by (induction xs) (auto split: list.splits)

lemma running_min_Cons:
  assumes "xs \<noteq> []"
  shows "running_min (x # xs) = min x (running_min xs ! 0) # running_min xs"
proof -
  have "running_min xs \<noteq> []"
    using assms length_running_min [of xs] by auto
  then obtain r rs where "running_min xs = r # rs"
    by (cases "running_min xs") auto
  then show ?thesis by simp
qed

lemma running_min_lower:
  "k \<le> j \<Longrightarrow> j < length xs \<Longrightarrow> running_min xs ! k \<le> xs ! j"
proof (induction xs arbitrary: k j)
  case Nil
  then show ?case by simp
next
  case (Cons x xs)
  show ?case
  proof (cases "xs = []")
    case True
    then show ?thesis using Cons.prems by simp
  next
    case False
    note rm = running_min_Cons [OF False, of x]
    show ?thesis
    proof (cases j)
      case 0
      then have "k = 0" using Cons.prems by simp
      then show ?thesis using 0 by (simp add: rm del: running_min.simps)
    next
      case (Suc j')
      then have j': "j' < length xs" using Cons.prems by simp
      show ?thesis
      proof (cases k)
        case 0
        have "running_min xs ! 0 \<le> xs ! j'"
          using j' by (intro Cons.IH) simp_all
        then show ?thesis by (simp add: rm 0 Suc min.coboundedI2 del: running_min.simps)
      next
        case (Suc k')
        then have "k' \<le> j'" using Cons.prems \<open>j = Suc j'\<close> by simp
        then have "running_min xs ! k' \<le> xs ! j'"
          using j' by (rule Cons.IH)
        then show ?thesis by (simp add: rm Suc \<open>j = Suc j'\<close> del: running_min.simps)
      qed
    qed
  qed
qed

lemma running_min_attained:
  "k < length xs \<Longrightarrow> \<exists>j. k \<le> j \<and> j < length xs \<and> running_min xs ! k = xs ! j"
proof (induction xs arbitrary: k)
  case Nil
  then show ?case by simp
next
  case (Cons x xs)
  show ?case
  proof (cases "xs = []")
    case True
    then show ?thesis using Cons.prems by simp
  next
    case False
    note rm = running_min_Cons [OF False, of x]
    show ?thesis
    proof (cases k)
      case 0
      obtain j where j: "j < length xs" "running_min xs ! 0 = xs ! j"
        using Cons.IH [of 0] False by auto
      show ?thesis
      proof (cases "x \<le> running_min xs ! 0")
        case True
        then have "running_min (x # xs) ! 0 = (x # xs) ! 0"
          by (simp add: rm min_def del: running_min.simps)
        then show ?thesis using 0 by blast
      next
        case False
        then have "running_min (x # xs) ! 0 = (x # xs) ! Suc j"
          using j by (simp add: rm min_def del: running_min.simps)
        then show ?thesis using 0 j(1) by (intro exI [of _ "Suc j"]) simp
      qed
    next
      case (Suc k')
      then have "k' < length xs" using Cons.prems by simp
      then obtain j where j: "k' \<le> j" "j < length xs" "running_min xs ! k' = xs ! j"
        using Cons.IH by blast
      then show ?thesis
        by (intro exI [of _ "Suc j"]) (simp add: rm Suc del: running_min.simps)
    qed
  qed
qed

lemma length_rank_scaled: "length (rank_scaled s) = length s"
  by (simp add: rank_scaled_def del: upt_Suc)

lemma rank_scaled_nth:
  assumes "j < length s"
  shows "rank_scaled s ! j = s ! j * real (length s) / real (j + 1)"
proof -
  have "zip s [1..<length s + 1] ! j = (s ! j, j + 1)"
    using assms by (simp del: upt_Suc)
  moreover have "j < length (zip s [1..<length s + 1])"
    using assms by (simp del: upt_Suc)
  ultimately show ?thesis
    unfolding rank_scaled_def by (simp del: upt_Suc)
qed

lemma clip01_range: "0 \<le> clip01 x \<and> clip01 x \<le> 1"
  by (simp add: clip01_def)

lemma clip01_mono: "x \<le> y \<Longrightarrow> clip01 x \<le> clip01 y"
  by (auto simp: clip01_def)

lemma clip01_above: "p \<le> 1 \<Longrightarrow> p \<le> x \<Longrightarrow> p \<le> clip01 x"
  by (auto simp: clip01_def)

subsection \<open>The sorting permutation\<close>

lemma length_argsort: "length (argsort ps) = length ps"
  by (simp add: argsort_def)

lemma set_argsort: "set (argsort ps) = {0..<length ps}"
  by (simp add: argsort_def)

lemma distinct_argsort: "distinct (argsort ps)"
  by (simp add: argsort_def)

lemma sorted_argsort: "sorted (map (\<lambda>i. ps ! i) (argsort ps))"
  unfolding argsort_def by (rule sorted_sort_key)

lemma argsort_values: "map (\<lambda>i. ps ! i) (argsort ps) = sort ps"
proof -
  have "mset (map (\<lambda>i. ps ! i) (argsort ps)) = mset (map (\<lambda>i. ps ! i) [0..<length ps])"
    by (simp add: argsort_def)
  also have "map (\<lambda>i. ps ! i) [0..<length ps] = ps"
    by (rule map_nth)
  finally have "mset (map (\<lambda>i. ps ! i) (argsort ps)) = mset ps" .
  then have "sort ps = map (\<lambda>i. ps ! i) (argsort ps)"
    using sorted_argsort [of ps] by (rule properties_for_sort)
  then show ?thesis by simp
qed

lemma argsort_index:
  assumes "i < length ps"
  shows "\<exists>k < length ps. argsort ps ! k = i"
proof -
  have "i \<in> set (argsort ps)"
    using assms by (simp add: set_argsort)
  then show ?thesis
    by (simp add: in_set_conv_nth length_argsort)
qed

lemma argsort_bound: "k < length ps \<Longrightarrow> argsort ps ! k < length ps"
  using set_argsort [of ps] nth_mem [of k "argsort ps"] by (simp add: length_argsort)

subsection \<open>The adjusted values\<close>

lemma benjamini_hochberg_rank:
  assumes "k < length ps"
  shows "benjamini_hochberg ps ! (argsort ps ! k)
           = clip01 (running_min (rank_scaled (sort ps)) ! k)"
proof -
  let ?adj = "map clip01 (running_min (rank_scaled (sort ps)))"
  have len: "length (argsort ps) = length ?adj"
    by (simp add: length_argsort length_running_min length_rank_scaled)
  have k: "k < length ?adj"
    using assms by (simp add: length_running_min length_rank_scaled)
  have "map_of (zip (argsort ps) ?adj) (argsort ps ! k) = Some (?adj ! k)"
    using len distinct_argsort k by (rule map_of_zip_nth)
  moreover have "?adj ! k = clip01 (running_min (rank_scaled (sort ps)) ! k)"
    using assms by (simp add: length_running_min length_rank_scaled)
  ultimately show ?thesis
    using argsort_bound [OF assms]
    by (simp add: benjamini_hochberg_def Let_def argsort_values)
qed

lemma sort_nth_argsort: "k < length ps \<Longrightarrow> sort ps ! k = ps ! (argsort ps ! k)"
  using argsort_values [of ps] by (metis length_argsort nth_map)

lemma scaled_ge:
  assumes "\<forall>p \<in> set ps. 0 \<le> p" and "j < length ps"
  shows "sort ps ! j \<le> rank_scaled (sort ps) ! j"
proof -
  have nn: "0 \<le> sort ps ! j"
    using assms by (metis length_sort nth_mem set_sort)
  have "1 \<le> real (length ps) / real (j + 1)"
    using assms(2) by simp
  then have "sort ps ! j * 1 \<le> sort ps ! j * (real (length ps) / real (j + 1))"
    using nn by (rule mult_left_mono)
  then show ?thesis
    using assms(2) by (simp add: rank_scaled_nth)
qed

lemma benjamini_hochberg_range:
  assumes "i < length ps"
  shows "0 \<le> benjamini_hochberg ps ! i \<and> benjamini_hochberg ps ! i \<le> 1"
proof -
  obtain k where "k < length ps" "argsort ps ! k = i"
    using argsort_index [OF assms] by blast
  then show ?thesis
    using benjamini_hochberg_rank [of k ps] clip01_range by simp
qed

lemma benjamini_hochberg_ge_raw:
  assumes "\<forall>p \<in> set ps. 0 \<le> p \<and> p \<le> 1" and "i < length ps"
  shows "ps ! i \<le> benjamini_hochberg ps ! i"
proof -
  let ?s = "sort ps"
  let ?rm = "running_min (rank_scaled ?s)"
  obtain k where k: "k < length ps" and ki: "argsort ps ! k = i"
    using argsort_index [OF assms(2)] by blast
  have nn: "\<forall>p \<in> set ps. 0 \<le> p" using assms(1) by blast
  obtain j where j: "k \<le> j" "j < length ps" and at: "?rm ! k = rank_scaled ?s ! j"
    using running_min_attained [of k "rank_scaled ?s"] k by (auto simp: length_rank_scaled)
  have "?s ! k \<le> ?s ! j"
    using j by (intro sorted_nth_mono) simp_all
  also have "\<dots> \<le> rank_scaled ?s ! j"
    using nn j(2) by (rule scaled_ge)
  finally have "?s ! k \<le> ?rm ! k" by (simp add: at)
  then have "ps ! i \<le> ?rm ! k"
    using sort_nth_argsort [OF k] ki by simp
  moreover have "ps ! i \<le> 1"
    using assms by simp
  ultimately have "ps ! i \<le> clip01 (?rm ! k)"
    by (intro clip01_above)
  then show ?thesis
    using benjamini_hochberg_rank [OF k] ki by simp
qed

lemma running_min_rank_order:
  assumes nn: "\<forall>p \<in> set ps. 0 \<le> p"
    and a: "a < length ps" and b: "b < length ps"
    and le: "sort ps ! a \<le> sort ps ! b"
  shows "running_min (rank_scaled (sort ps)) ! a \<le> running_min (rank_scaled (sort ps)) ! b"
proof -
  let ?s = "sort ps"
  let ?sc = "rank_scaled ?s"
  let ?rm = "running_min ?sc"
  obtain j where j: "b \<le> j" "j < length ps" and at: "?rm ! b = ?sc ! j"
    using running_min_attained [of b ?sc] b by (auto simp: length_rank_scaled)
  show ?thesis
  proof (cases "a \<le> j")
    case True
    then have "?rm ! a \<le> ?sc ! j"
      using j(2) by (intro running_min_lower) (simp_all add: length_rank_scaled)
    then show ?thesis by (simp add: at)
  next
    case False
    then have ja: "j < a" by simp
    have "?s ! b \<le> ?s ! j"
      using j by (intro sorted_nth_mono) simp_all
    moreover have "?s ! j \<le> ?s ! a"
      using ja a by (intro sorted_nth_mono) simp_all
    ultimately have eq: "?s ! j = ?s ! a"
      using le by simp
    have p0: "0 \<le> ?s ! a"
      using nn a by (metis length_sort nth_mem set_sort)
    have "real (length ps) / real (a + 1) \<le> real (length ps) / real (j + 1)"
      using ja by (intro divide_left_mono) simp_all
    then have "?s ! a * (real (length ps) / real (a + 1))
        \<le> ?s ! a * (real (length ps) / real (j + 1))"
      using p0 by (rule mult_left_mono)
    then have "?sc ! a \<le> ?sc ! j"
      using a j(2) by (simp add: rank_scaled_nth eq)
    moreover have "?rm ! a \<le> ?sc ! a"
      using a by (intro running_min_lower) (simp_all add: length_rank_scaled)
    ultimately show ?thesis by (simp add: at)
  qed
qed

lemma benjamini_hochberg_rank_order:
  assumes "\<forall>p \<in> set ps. 0 \<le> p"
    and "i < length ps" and "j < length ps" and "ps ! i \<le> ps ! j"
  shows "benjamini_hochberg ps ! i \<le> benjamini_hochberg ps ! j"
proof -
  obtain a where a: "a < length ps" and ai: "argsort ps ! a = i"
    using argsort_index [OF assms(2)] by blast
  obtain b where b: "b < length ps" and bj: "argsort ps ! b = j"
    using argsort_index [OF assms(3)] by blast
  have "sort ps ! a \<le> sort ps ! b"
    using assms(4) sort_nth_argsort [OF a] sort_nth_argsort [OF b] ai bj by simp
  then have "running_min (rank_scaled (sort ps)) ! a \<le> running_min (rank_scaled (sort ps)) ! b"
    using assms(1) a b by (intro running_min_rank_order)
  then have "clip01 (running_min (rank_scaled (sort ps)) ! a)
      \<le> clip01 (running_min (rank_scaled (sort ps)) ! b)"
    by (rule clip01_mono)
  then show ?thesis
    using benjamini_hochberg_rank [OF a] benjamini_hochberg_rank [OF b] ai bj by simp
qed

text \<open>
  Claim C4. The correction returns one adjusted value per p-value, in the order of the
  input; the value of the p-value at rank \<open>k + 1\<close> is the clipped running minimum, from
  the largest rank down, of the sorted p-values scaled by \<open>m / rank\<close>; every adjusted
  value lies in \<open>[0, 1]\<close>; for p-values in \<open>[0, 1]\<close> it is at least the raw p-value;
  and for non-negative p-values the adjusted values are ordered as the raw ones.
\<close>

theorem benjamini_hochberg_properties:
  "length (benjamini_hochberg ps) = length ps
   \<and> (\<forall>k < length ps. benjamini_hochberg ps ! (argsort ps ! k)
          = clip01 (running_min (rank_scaled (sort ps)) ! k)
        \<and> sort ps ! k = ps ! (argsort ps ! k))
   \<and> (\<forall>i < length ps. 0 \<le> benjamini_hochberg ps ! i \<and> benjamini_hochberg ps ! i \<le> 1)
   \<and> ((\<forall>p \<in> set ps. 0 \<le> p \<and> p \<le> 1) \<longrightarrow>
        (\<forall>i < length ps. ps ! i \<le> benjamini_hochberg ps ! i))
   \<and> ((\<forall>p \<in> set ps. 0 \<le> p) \<longrightarrow>
        (\<forall>i < length ps. \<forall>j < length ps.
           ps ! i \<le> ps ! j \<longrightarrow> benjamini_hochberg ps ! i \<le> benjamini_hochberg ps ! j))"
  using length_benjamini_hochberg [of ps] benjamini_hochberg_rank [of _ ps]
    sort_nth_argsort [of _ ps] benjamini_hochberg_range [of _ ps]
    benjamini_hochberg_ge_raw [of ps] benjamini_hochberg_rank_order [of ps]
  by blast

theorem benjamini_hochberg_properties_witness:
  "set [1, 31 / 10000, 213 / 10000 :: real] \<subseteq> {0..1}
   \<and> benjamini_hochberg [1, 31 / 10000, 213 / 10000] = [1, 93 / 10000, 639 / 20000]
   \<and> length (benjamini_hochberg [1, 31 / 10000, 213 / 10000]) = 3
   \<and> [1, 31 / 10000, 213 / 10000] ! 1 \<le> benjamini_hochberg [1, 31 / 10000, 213 / 10000] ! 1
   \<and> [1, 31 / 10000, 213 / 10000 :: real] ! 1 \<le> [1, 31 / 10000, 213 / 10000] ! 2
   \<and> benjamini_hochberg [1, 31 / 10000, 213 / 10000] ! 1
        \<le> benjamini_hochberg [1, 31 / 10000, 213 / 10000] ! 2
   \<and> benjamini_hochberg [1, 31 / 10000, 213 / 10000] ! 2 \<le> 1"
proof -
  let ?ps = "[1, 31 / 10000, 213 / 10000 :: real]"
  have s: "set ?ps \<subseteq> {0..1}"
    by simp
  then have h: "\<forall>p \<in> set ?ps. 0 \<le> p \<and> p \<le> 1"
    by auto
  then have h0: "\<forall>p \<in> set ?ps. 0 \<le> p"
    by blast
  have i: "(1::nat) < length ?ps" "(2::nat) < length ?ps"
    by simp_all
  have le: "?ps ! 1 \<le> ?ps ! 2"
    by simp
  note th = benjamini_hochberg_properties [of ?ps]
  have a: "length (benjamini_hochberg ?ps) = 3"
    using th by simp
  have b: "?ps ! 1 \<le> benjamini_hochberg ?ps ! 1"
    using th h i(1) by blast
  have c: "benjamini_hochberg ?ps ! 1 \<le> benjamini_hochberg ?ps ! 2"
    using th h0 i le by blast
  have d: "benjamini_hochberg ?ps ! 2 \<le> 1"
    using th i(2) by blast
  show ?thesis
    using s benjamini_hochberg_three a b le c d by blast
qed

section \<open>The order of the result table\<close>

lemma analysis_section_sorted:
  assumes "analysis_section tt fdc st t p fc m = Inr rs"
  shows "sorted (map adj_p_value rs)"
proof -
  obtain xs where "rs = sort_key adj_p_value xs"
    using assms
    by (auto simp: analysis_section_def Let_def split: option.splits sum.splits if_splits)
  then show ?thesis by simp
qed

lemma differential_expression_section_index:
  assumes "\<And>ps. length (fdr ps) = length ps"
    and "differential_expression_section tt fdr st t m = Inr rs"
  shows "map gene rs = index (expression_data st)"
proof -
  obtain design where "run_simple_differential_expression tt fdr (expression_data st) design
      = Inr rs"
    using assms(2) by (auto simp: differential_expression_section_def split: sum.splits)
  then show ?thesis
    using assms(1) by (intro run_simple_index)
qed

lemma six_samples_find: "find_target_gene six_samples ''D'' = Some ''D''"
  by code_simp

lemma six_samples_groups:
  "group_samples six_samples ''D'' ''Median split''
     = Inr ([''s4'', ''s5'', ''s6''], [''s1'', ''s2'', ''s3''])"
  by (simp add: group_samples_def six_samples_def loc_def labels_where_def median_def
      quantile_def Let_def)

lemma six_samples_web_genes:
  "map gene_id (run_differential_expression ttest_ind_example six_samples
      [''s4'', ''s5'', ''s6''] [''s1'', ''s2'', ''s3'']) = [''G1'', ''G2'', ''D'']"
proof -
  have "map gene_id (run_differential_expression ttest_ind_example six_samples
      [''s4'', ''s5'', ''s6''] [''s1'', ''s2'', ''s3'']) = index (expression_data six_samples)"
    by (rule run_differential_expression_all)
       (simp_all add: six_samples_columns ttest_ind_example_returns, simp add: six_samples_def)
  then show ?thesis by (simp add: index_def six_samples_def)
qed

lemma six_samples_section:
  "differential_expression_section ttest_ind_example benjamini_hochberg six_samples ''D''
     ''Median split'' = Inr six_samples_table"
  by (simp add: differential_expression_section_def six_samples_median six_samples_run)

text \<open>
  Claim C9, as the code has it. The table that the web app stores is sorted by
  ascending adjusted p-value. The enhanced app stores the table as its engine returns
  it, in the row order of the expression matrix.
\<close>

theorem result_table_order:
  "(analysis_section tt fdc st t p fc m = Inr rs \<longrightarrow> sorted (map adj_p_value rs))
   \<and> ((\<forall>ps. length (fdr ps) = length ps)
        \<and> differential_expression_section tt fdr st t m' = Inr rs' \<longrightarrow>
          map gene rs' = index (expression_data st))"
  using analysis_section_sorted [of tt fdc st t p fc m rs]
    differential_expression_section_index [of fdr tt st t m' rs']
  by blast

theorem result_table_order_witness:
  "\<not> isl (analysis_section ttest_ind_example benjamini_hochberg six_samples ''D'' (5 / 100) 1
          ''Median split'')
   \<and> sorted (map adj_p_value
        (projr (analysis_section ttest_ind_example benjamini_hochberg six_samples ''D''
           (5 / 100) 1 ''Median split'')))
   \<and> (\<forall>ps. length (benjamini_hochberg ps) = length ps)
   \<and> differential_expression_section ttest_ind_example benjamini_hochberg six_samples ''D''
        ''Median split'' = Inr six_samples_table
   \<and> map gene six_samples_table = index (expression_data six_samples)"
proof -
  let ?a = "analysis_section ttest_ind_example benjamini_hochberg six_samples ''D'' (5 / 100) 1
      ''Median split''"
  have ne: "run_differential_expression ttest_ind_example six_samples
      [''s4'', ''s5'', ''s6''] [''s1'', ''s2'', ''s3''] \<noteq> []"
    using six_samples_web_genes by auto
  have "\<exists>rs. ?a = Inr rs"
    using ne by (simp add: analysis_section_def six_samples_find six_samples_groups Let_def)
  then obtain rs where rs: "?a = Inr rs" by blast
  have l: "\<forall>ps. length (benjamini_hochberg ps) = length ps"
    by (simp add: length_benjamini_hochberg)
  note th = result_table_order [of ttest_ind_example benjamini_hochberg six_samples "''D''"
      "5 / 100" 1 "''Median split''" rs benjamini_hochberg "''Median split''" six_samples_table]
  have "sorted (map adj_p_value rs)"
    using th rs by blast
  then have web: "\<not> isl ?a \<and> sorted (map adj_p_value (projr ?a))"
    using rs by simp
  have "map gene six_samples_table = index (expression_data six_samples)"
    using th l six_samples_section by blast
  then show ?thesis
    using web l six_samples_section by blast
qed

text \<open>
  The enhanced app on \<open>six_samples\<close> with the median split of row \<open>D\<close>: the table is
  in row order \<open>G1, G2, D\<close> with adjusted p-values \<open>1, 0.0093, 0.03195\<close>, which is not
  ascending.
\<close>

theorem result_table_order_counterexample:
  "differential_expression_section ttest_ind_example benjamini_hochberg six_samples ''D''
      ''Median split'' = Inr six_samples_table
   \<and> map gene six_samples_table = [''G1'', ''G2'', ''D'']
   \<and> map padj six_samples_table = [1, 93 / 10000, 639 / 20000]
   \<and> \<not> sorted (map padj six_samples_table)"
  using six_samples_section by (simp add: six_samples_table_def)

section \<open>The significance labels of the result table\<close>

lemma significance_label_values:
  "significance_label a l p fc = ''up'' \<or> significance_label a l p fc = ''down''
     \<or> significance_label a l p fc = ''ns''"
  by (simp add: significance_label_def)

lemma not_up_and_down:
  "0 \<le> fc \<Longrightarrow> \<not> (up_condition a l p fc \<and> down_condition a l p fc)"
  by (simp add: up_condition_def down_condition_def)

lemma thresholds_positive:
  assumes "analysis_section_thresholds p fc \<or> differential_expression_section_thresholds p fc"
  shows "0 < p" and "0 < fc"
  using assms
  by (auto simp: analysis_section_thresholds_def differential_expression_section_thresholds_def
      number_input_def)

lemma de_result_fields:
  "gene_id (de_row.extend r \<lparr>adj_p_value = a, significance = s\<rparr>) = gene_id r"
  "log2_fold_change (de_row.extend r \<lparr>adj_p_value = a, significance = s\<rparr>) = log2_fold_change r"
  "p_value (de_row.extend r \<lparr>adj_p_value = a, significance = s\<rparr>) = p_value r"
  "adj_p_value (de_row.extend r \<lparr>adj_p_value = a, significance = s\<rparr>) = a"
  "significance (de_row.extend r \<lparr>adj_p_value = a, significance = s\<rparr>) = s"
  by (simp_all add: de_row.defs)

lemma label_results_mem:
  assumes "w \<in> set (label_results p fc de adj)"
  shows "significance w = significance_label (adj_p_value w) (log2_fold_change w) p fc"
proof -
  obtain r a where "w = de_row.extend r
      \<lparr>adj_p_value = a, significance = significance_label a (log2_fold_change r) p fc\<rparr>"
    using assms unfolding label_results_def by auto
  then show ?thesis
    by (simp add: de_result_fields)
qed

lemma analysis_section_Inr:
  assumes "analysis_section tt fdc st t p fc m = Inr rs"
  shows "\<exists>k h l. find_target_gene st t = Some k \<and> group_samples st k m = Inr (h, l)
    \<and> rs = sort_key adj_p_value
        (label_results p fc (run_differential_expression tt st h l)
           (fdc (map p_value (run_differential_expression tt st h l))))"
  using assms
  by (auto simp: analysis_section_def Let_def split: option.splits sum.splits if_splits)

lemma analysis_section_labels:
  assumes "analysis_section tt fdc st t p fc m = Inr rs" and "r \<in> set rs"
  shows "significance r = significance_label (adj_p_value r) (log2_fold_change r) p fc"
proof -
  obtain de adj where "rs = sort_key adj_p_value (label_results p fc de adj)"
    using analysis_section_Inr [OF assms(1)] by blast
  then have "r \<in> set (label_results p fc de adj)"
    using assms(2) by simp
  then show ?thesis
    by (rule label_results_mem)
qed

text \<open>
  Claim C5, as the code has it. For every pair of thresholds that the number inputs of
  either app can hand over, the label of the web app is \<open>up\<close> exactly when
  \<open>adj_p < p_threshold\<close> and \<open>log2FC > fc_threshold\<close>, \<open>down\<close> exactly when
  \<open>adj_p < p_threshold\<close> and \<open>log2FC < - fc_threshold\<close>, and the string \<open>ns\<close> otherwise;
  it is one of these three strings; the two conditions exclude each other; the
  enhanced app's up and down counts use the same two conditions; and every record of
  the table that the web app stores carries the label of its own adjusted p-value and
  fold change.
\<close>

theorem significance_label_rule:
  assumes "analysis_section_thresholds p fc \<or> differential_expression_section_thresholds p fc"
  shows "(significance_label a l p fc = ''up'' \<longleftrightarrow> up_condition a l p fc)
     \<and> (significance_label a l p fc = ''down'' \<longleftrightarrow> down_condition a l p fc)
     \<and> (significance_label a l p fc = ''ns'' \<longleftrightarrow>
          \<not> up_condition a l p fc \<and> \<not> down_condition a l p fc)
     \<and> significance_label a l p fc \<in> {''up'', ''down'', ''ns''}
     \<and> \<not> (up_condition a l p fc \<and> down_condition a l p fc)
     \<and> (up_regulated a l p fc \<longleftrightarrow> up_condition a l p fc)
     \<and> (down_regulated a l p fc \<longleftrightarrow> down_condition a l p fc)
     \<and> (analysis_section tt fdc st t p fc m = Inr rs \<longrightarrow>
          (\<forall>r \<in> set rs. significance r
             = significance_label (adj_p_value r) (log2_fold_change r) p fc))"
proof -
  have fc: "0 \<le> fc"
    using thresholds_positive(2) [OF assms] by simp
  have excl: "\<not> (up_condition a l p fc \<and> down_condition a l p fc)"
    using fc by (rule not_up_and_down)
  have up: "significance_label a l p fc = ''up'' \<longleftrightarrow> up_condition a l p fc"
    by (simp add: significance_label_def)
  have down: "significance_label a l p fc = ''down'' \<longleftrightarrow> down_condition a l p fc"
    using excl by (auto simp: significance_label_def)
  have ns: "significance_label a l p fc = ''ns'' \<longleftrightarrow>
      \<not> up_condition a l p fc \<and> \<not> down_condition a l p fc"
    by (simp add: significance_label_def)
  have mem: "significance_label a l p fc \<in> {''up'', ''down'', ''ns''}"
    using significance_label_values [of a l p fc] by blast
  have eup: "up_regulated a l p fc \<longleftrightarrow> up_condition a l p fc"
    using fc by (auto simp: up_regulated_def significant_def up_condition_def)
  have edown: "down_regulated a l p fc \<longleftrightarrow> down_condition a l p fc"
    using fc by (auto simp: down_regulated_def significant_def down_condition_def)
  have tab: "analysis_section tt fdc st t p fc m = Inr rs \<longrightarrow>
      (\<forall>r \<in> set rs. significance r
         = significance_label (adj_p_value r) (log2_fold_change r) p fc)"
    using analysis_section_labels [of tt fdc st t p fc m rs] by blast
  show ?thesis
    using excl up down ns mem eup edown tab by blast
qed

lemma default_thresholds: "analysis_section_thresholds (5 / 100) 1"
  by (simp add: analysis_section_thresholds_def number_input_def)

lemma six_samples_web_run:
  "map p_value (run_differential_expression ttest_ind_example six_samples
      [''s4'', ''s5'', ''s6''] [''s1'', ''s2'', ''s3'']) = [1, 3023 / 10000, 3023 / 10000]"
  "map log2_fold_change (run_differential_expression ttest_ind_example six_samples
      [''s4'', ''s5'', ''s6''] [''s1'', ''s2'', ''s3'']) ! 0 = 0"
  by (simp_all add: run_differential_expression_def de_gene_def six_samples_def select_def
      ttest_ind_example_def mean_def Let_def List.map_filter_simps)

lemma label_results_nth:
  assumes "i < length de" and "i < length adj"
  shows "de_row.extend (de ! i)
      \<lparr>adj_p_value = adj ! i,
       significance = significance_label (adj ! i) (log2_fold_change (de ! i)) p fc\<rparr>
    \<in> set (label_results p fc de adj)"
proof -
  have "(de ! i, adj ! i) \<in> set (zip de adj)"
    using assms by (metis length_zip min_less_iff_conj nth_mem nth_zip)
  then show ?thesis
    unfolding label_results_def set_map by (rule rev_image_eqI) simp
qed

lemma six_samples_analysis:
  "\<exists>rs. analysis_section ttest_ind_example benjamini_hochberg six_samples ''D'' (5 / 100) 1
      ''Median split'' = Inr rs
     \<and> (\<exists>r. r \<in> set rs \<and> gene_id r = ''G1'' \<and> adj_p_value r = 1 \<and> log2_fold_change r = 0)"
proof -
  define de where "de = run_differential_expression ttest_ind_example six_samples
      [''s4'', ''s5'', ''s6''] [''s1'', ''s2'', ''s3'']"
  define adj where "adj = benjamini_hochberg (map p_value de)"
  define tab where "tab = label_results (5 / 100) 1 de adj"
  have gs: "map gene_id de = [''G1'', ''G2'', ''D'']"
    unfolding de_def by (rule six_samples_web_genes)
  have ps: "map p_value de = [1, 3023 / 10000, 3023 / 10000]"
    unfolding de_def by (rule six_samples_web_run(1))
  have fs: "map log2_fold_change de ! 0 = 0"
    unfolding de_def by (rule six_samples_web_run(2))
  have "length (map gene_id de) = 3"
    by (simp only: gs) simp
  then have len: "length de = 3"
    by simp
  have ne: "de \<noteq> []"
    using len by auto
  have a: "analysis_section ttest_ind_example benjamini_hochberg six_samples ''D'' (5 / 100) 1
      ''Median split'' = Inr (sort_key adj_p_value tab)"
    unfolding tab_def adj_def de_def using ne [unfolded de_def]
    by (simp add: analysis_section_def six_samples_find six_samples_groups Let_def)
  have "map gene_id de ! 0 = ''G1''"
    by (simp only: gs nth_Cons_0)
  then have g: "gene_id (de ! 0) = ''G1''"
    using len by simp
  have "map p_value de ! 0 = 1"
    by (simp only: ps nth_Cons_0)
  then have p: "p_value (de ! 0) = 1"
    using len by simp
  have f: "log2_fold_change (de ! 0) = 0"
    using fs len by simp
  have r: "\<forall>q \<in> set (map p_value de). 0 \<le> q \<and> q \<le> 1"
    by (simp only: ps) simp
  have l0: "0 < length (map p_value de)"
    using len by simp
  have "map p_value de ! 0 \<le> adj ! 0"
    unfolding adj_def using r l0 by (rule benjamini_hochberg_ge_raw)
  then have lo: "1 \<le> adj ! 0"
    using p len by simp
  have hi: "adj ! 0 \<le> 1"
    unfolding adj_def using benjamini_hochberg_range [OF l0] by blast
  have adj0: "adj ! 0 = 1"
    using lo hi by simp
  have la: "length adj = 3"
    unfolding adj_def using len by (simp add: length_benjamini_hochberg)
  define r0 where "r0 = de_row.extend (de ! 0)
      \<lparr>adj_p_value = adj ! 0,
       significance = significance_label (adj ! 0) (log2_fold_change (de ! 0)) (5 / 100) 1\<rparr>"
  have m: "r0 \<in> set tab"
    unfolding tab_def r0_def using len la by (intro label_results_nth) simp_all
  have r1: "gene_id r0 = ''G1''"
    unfolding r0_def de_result_fields by (rule g)
  have r2: "adj_p_value r0 = 1"
    unfolding r0_def de_result_fields by (rule adj0)
  have r3: "log2_fold_change r0 = 0"
    unfolding r0_def de_result_fields by (rule f)
  have "\<exists>r. r \<in> set tab \<and> gene_id r = ''G1'' \<and> adj_p_value r = 1
      \<and> log2_fold_change r = 0"
    using m r1 r2 r3 by blast
  then have "\<exists>r. r \<in> set (sort_key adj_p_value tab) \<and> gene_id r = ''G1''
      \<and> adj_p_value r = 1 \<and> log2_fold_change r = 0"
    by simp
  then show ?thesis
    using a by blast
qed

theorem significance_label_rule_witness:
  "analysis_section_thresholds (5 / 100) 1
   \<and> significance_label (1 / 100) 2 (5 / 100) 1 = ''up''
   \<and> up_condition (1 / 100) 2 (5 / 100) 1
   \<and> \<not> down_condition (1 / 100) 2 (5 / 100) 1
   \<and> up_regulated (1 / 100) 2 (5 / 100) 1
   \<and> \<not> isl (analysis_section ttest_ind_example benjamini_hochberg six_samples ''D'' (5 / 100) 1
            ''Median split'')
   \<and> map significance
        (projr (analysis_section ttest_ind_example benjamini_hochberg six_samples ''D''
           (5 / 100) 1 ''Median split''))
      = map (\<lambda>r. significance_label (adj_p_value r) (log2_fold_change r) (5 / 100) 1)
          (projr (analysis_section ttest_ind_example benjamini_hochberg six_samples ''D''
             (5 / 100) 1 ''Median split''))"
proof -
  let ?a = "analysis_section ttest_ind_example benjamini_hochberg six_samples ''D'' (5 / 100) 1
      ''Median split''"
  have h: "analysis_section_thresholds (5 / 100) 1
      \<or> differential_expression_section_thresholds (5 / 100) 1"
    using default_thresholds by blast
  have u: "up_condition (1 / 100) 2 (5 / 100) 1"
    by (simp add: up_condition_def)
  obtain rs where rs: "?a = Inr rs"
    using six_samples_analysis by blast
  note th = significance_label_rule [OF h, of "1 / 100" 2 ttest_ind_example benjamini_hochberg
      six_samples "''D''" "''Median split''" rs]
  have lab: "significance_label (1 / 100) 2 (5 / 100) 1 = ''up''
      \<and> \<not> down_condition (1 / 100) 2 (5 / 100) 1 \<and> up_regulated (1 / 100) 2 (5 / 100) 1"
    using th u by blast
  have "\<forall>r \<in> set rs. significance r
      = significance_label (adj_p_value r) (log2_fold_change r) (5 / 100) 1"
    using th rs by blast
  then have "map significance rs
      = map (\<lambda>r. significance_label (adj_p_value r) (log2_fold_change r) (5 / 100) 1) rs"
    by simp
  then have tab: "\<not> isl ?a \<and> map significance (projr ?a)
      = map (\<lambda>r. significance_label (adj_p_value r) (log2_fold_change r) (5 / 100) 1) (projr ?a)"
    using rs by simp
  show ?thesis
    using default_thresholds u lab tab by blast
qed

text \<open>
  The label of a record that meets neither condition is the string \<open>ns\<close>, which is
  none of \<open>up\<close>, \<open>down\<close> and \<open>not-significant\<close>. The web app on \<open>six_samples\<close> with the
  median split of row \<open>D\<close> and the default thresholds 0.05 and 1.0: the two slices of
  \<open>G1\<close> are both \<open>[1, 3, 7]\<close>, so its p-value and its adjusted p-value are 1 and its
  fold change is 0, and its record in the stored table is labelled \<open>ns\<close>.
\<close>

theorem significance_label_counterexample:
  "analysis_section_thresholds (5 / 100) 1
   \<and> \<not> up_condition 1 0 (5 / 100) 1
   \<and> \<not> down_condition 1 0 (5 / 100) 1
   \<and> significance_label 1 0 (5 / 100) 1 = ''ns''
   \<and> significance_label 1 0 (5 / 100) 1 \<notin> {''up'', ''down'', ''not-significant''}
   \<and> \<not> isl (analysis_section ttest_ind_example benjamini_hochberg six_samples ''D'' (5 / 100) 1
            ''Median split'')
   \<and> (\<exists>r. r \<in> set (projr (analysis_section ttest_ind_example benjamini_hochberg six_samples
                ''D'' (5 / 100) 1 ''Median split''))
         \<and> gene_id r = ''G1'' \<and> adj_p_value r = 1 \<and> log2_fold_change r = 0
         \<and> significance r = ''ns''
         \<and> significance r \<notin> {''up'', ''down'', ''not-significant''})"
proof -
  let ?a = "analysis_section ttest_ind_example benjamini_hochberg six_samples ''D'' (5 / 100) 1
      ''Median split''"
  have l: "significance_label 1 0 (5 / 100) 1 = ''ns''"
    by (simp add: significance_label_def up_condition_def down_condition_def)
  have c: "\<not> up_condition 1 0 (5 / 100) 1 \<and> \<not> down_condition 1 0 (5 / 100) 1"
    by (simp add: up_condition_def down_condition_def)
  have n: "''ns'' \<notin> {''up'', ''down'', ''not-significant''}"
    by simp
  obtain rs r where rs: "?a = Inr rs" and r: "r \<in> set rs" "gene_id r = ''G1''"
      "adj_p_value r = 1" "log2_fold_change r = 0"
    using six_samples_analysis by blast
  have "significance r = ''ns''"
    using analysis_section_labels [OF rs r(1)] r(3,4) l by simp
  then have "\<exists>r. r \<in> set (projr ?a) \<and> gene_id r = ''G1'' \<and> adj_p_value r = 1
      \<and> log2_fold_change r = 0 \<and> significance r = ''ns''
      \<and> significance r \<notin> {''up'', ''down'', ''not-significant''}"
    using rs r n by (intro exI [of _ r]) simp
  moreover have "\<not> isl ?a"
    using rs by simp
  ultimately show ?thesis
    using default_thresholds l c n by simp
qed

end
